theory Spec2Isabelle
  imports Complex_Main "HOL-Library.AList"
begin

section \<open>Arrays\<close>

text \<open>
  The filter of \<^verbatim>\<open>predict.py\<close> computes on numpy arrays of floats. The embedding
  takes a one-dimensional array as a list of reals and a two-dimensional array as a list
  of rows, and every array operation as the exact operation on reals: overflow and NaN
  are outside the model, and rounding is modelled for the covariance updates only, in
  the section on double arithmetic. The shapes that occur are fixed by the code: states of
  length 4, observations of length 2, \<open>F\<close> and the covariances 4 by 4, \<open>H\<close> 2 by 4, \<open>R\<close>
  and \<open>S\<close> 2 by 2. The tracked objects have these shapes in every filter reached from the
  constructor on data whose observed positions have two entries (\<open>shapes_reached\<close>
  below), so numpy raises no shape error there; on lists of other lengths the operations
  below truncate where numpy would raise.
\<close>

type_synonym vec = "real list"
type_synonym mat = "real list list"

datatype key = KStr string | KInt int

datatype error =
    KeyError key
  | IndexError
  | LinAlgError
  | ZeroDivisionError
  | TypeError
  | AssertionError
  | SystemExit int

definition np_eye :: "nat \<Rightarrow> mat" where
  "np_eye n = map (\<lambda>i. map (\<lambda>j. if i = j then 1 else 0) [0..<n]) [0..<n]"

definition np_zeros :: "nat \<Rightarrow> nat \<Rightarrow> mat" where
  "np_zeros m n = replicate m (replicate n 0)"

text \<open>\<^verbatim>\<open>A*c\<close>, \<^verbatim>\<open>A/c\<close> and \<^verbatim>\<open>c*A\<close> for an array \<open>A\<close> and a scalar \<open>c\<close>.\<close>

definition mat_times :: "mat \<Rightarrow> real \<Rightarrow> mat" where
  "mat_times A c = map (map (\<lambda>x. x * c)) A"

definition mat_div :: "mat \<Rightarrow> real \<Rightarrow> mat" where
  "mat_div A c = map (map (\<lambda>x. x / c)) A"

definition times_mat :: "real \<Rightarrow> mat \<Rightarrow> mat" where
  "times_mat c A = map (map (\<lambda>x. c * x)) A"

text \<open>Elementwise sums and differences of arrays of one shape.\<close>

definition vec_add :: "vec \<Rightarrow> vec \<Rightarrow> vec" where
  "vec_add u v = map2 (+) u v"

definition vec_sub :: "vec \<Rightarrow> vec \<Rightarrow> vec" where
  "vec_sub u v = map2 (-) u v"

definition mat_add :: "mat \<Rightarrow> mat \<Rightarrow> mat" where
  "mat_add A B = map2 vec_add A B"

definition mat_sub :: "mat \<Rightarrow> mat \<Rightarrow> mat" where
  "mat_sub A B = map2 vec_sub A B"

text \<open>\<^verbatim>\<open>np.hstack\<close> and \<^verbatim>\<open>np.vstack\<close> of a list of two-dimensional arrays.\<close>

fun np_hstack :: "mat list \<Rightarrow> mat" where
  "np_hstack [] = []"
| "np_hstack [A] = A"
| "np_hstack (A # As) = map2 (@) A (np_hstack As)"

definition np_vstack :: "mat list \<Rightarrow> mat" where
  "np_vstack As = concat As"

definition np_transpose :: "mat \<Rightarrow> mat" where
  "np_transpose A =
     (case A of [] \<Rightarrow> [] | r # _ \<Rightarrow> map (\<lambda>j. map (\<lambda>row. row ! j) A) [0..<length r])"

definition dot :: "vec \<Rightarrow> vec \<Rightarrow> real" where
  "dot u v = sum_list (map2 (*) u v)"

text \<open>\<^verbatim>\<open>np.matmul\<close> of a matrix with a matrix, and of a matrix with a vector.\<close>

definition np_matmul :: "mat \<Rightarrow> mat \<Rightarrow> mat" where
  "np_matmul A B = map (\<lambda>row. map (\<lambda>col. dot row col) (np_transpose B)) A"

definition np_matmul_vec :: "mat \<Rightarrow> vec \<Rightarrow> vec" where
  "np_matmul_vec A v = map (\<lambda>row. dot row v) A"

text \<open>
  \<^verbatim>\<open>np.linalg.inv\<close>: the inverse of a square matrix, \<^verbatim>\<open>LinAlgError\<close> when it is
  singular or not square. The filter inverts only the innovation covariance \<open>S\<close>, which
  has the two rows of \<open>H\<close>, so the model computes the inverse of a 2 by 2 matrix.
\<close>

fun np_linalg_inv :: "mat \<Rightarrow> error + mat" where
  "np_linalg_inv [[a, b], [c, d]] =
     (let det = a * d - b * c
      in if det = 0 then Inl LinAlgError
         else Inr [[d / det, - b / det], [- c / det, a / det]])"
| "np_linalg_inv _ = Inl LinAlgError"

definition np_abs :: "vec \<Rightarrow> vec" where
  "np_abs v = map abs v"

text \<open>
  \<^verbatim>\<open>np.argmin\<close>: the index of the first occurrence of the minimum. The scan keeps the
  best index and value so far and replaces them only by a strictly smaller value.
\<close>

fun argmin_scan :: "nat \<Rightarrow> real \<Rightarrow> nat \<Rightarrow> vec \<Rightarrow> nat" where
  "argmin_scan bi bv i [] = bi"
| "argmin_scan bi bv i (x # xs) =
     (if x < bv then argmin_scan i x (Suc i) xs else argmin_scan bi bv (Suc i) xs)"

fun np_argmin :: "vec \<Rightarrow> nat" where
  "np_argmin [] = 0"
| "np_argmin (x # xs) = argmin_scan 0 x 1 xs"

section \<open>Object state\<close>

text \<open>
  \<^verbatim>\<open>class KalmanObjectState\<close>. The true position and velocity default to \<^verbatim>\<open>None\<close>.
  The field \<^verbatim>\<open>done\<close> is written \<open>done_flag\<close>.
\<close>

record KalmanObjectState =
  x_obs :: vec
  x_est :: vec
  x_pred :: vec
  x_cov :: mat
  done_flag :: bool
  x_true :: "vec option"
  v_true :: "vec option"

definition KalmanObjectState_init ::
  "vec \<Rightarrow> vec \<Rightarrow> vec \<Rightarrow> mat \<Rightarrow> bool \<Rightarrow> KalmanObjectState" where
  "KalmanObjectState_init xo xe xp xc d =
     \<lparr>x_obs = xo, x_est = xe, x_pred = xp, x_cov = xc, done_flag = d,
      x_true = None, v_true = None\<rparr>"

definition SetTrueState :: "vec \<Rightarrow> vec \<Rightarrow> KalmanObjectState \<Rightarrow> KalmanObjectState" where
  "SetTrueState xt vt s = s\<lparr>x_true := Some xt, v_true := Some vt\<rparr>"

definition GetTrueState :: "KalmanObjectState \<Rightarrow> vec option \<times> vec option" where
  "GetTrueState s = (x_true s, v_true s)"

definition SetObservation :: "vec \<Rightarrow> KalmanObjectState \<Rightarrow> KalmanObjectState" where
  "SetObservation xo s = s\<lparr>x_obs := xo\<rparr>"

definition GetObservation :: "KalmanObjectState \<Rightarrow> vec" where
  "GetObservation s = x_obs s"

definition SetPredictedState :: "vec \<Rightarrow> KalmanObjectState \<Rightarrow> KalmanObjectState" where
  "SetPredictedState xp s = s\<lparr>x_pred := xp\<rparr>"

definition GetPredictedState :: "KalmanObjectState \<Rightarrow> vec" where
  "GetPredictedState s = x_pred s"

definition SetStateCov :: "mat \<Rightarrow> KalmanObjectState \<Rightarrow> KalmanObjectState" where
  "SetStateCov xc s = s\<lparr>x_cov := xc\<rparr>"

definition GetStateCov :: "KalmanObjectState \<Rightarrow> mat" where
  "GetStateCov s = x_cov s"

definition SetEstimatedState :: "vec \<Rightarrow> KalmanObjectState \<Rightarrow> KalmanObjectState" where
  "SetEstimatedState xe s = s\<lparr>x_est := xe\<rparr>"

definition GetEstimatedState :: "KalmanObjectState \<Rightarrow> vec" where
  "GetEstimatedState s = x_est s"

definition MarkDone :: "KalmanObjectState \<Rightarrow> KalmanObjectState" where
  "MarkDone s = s\<lparr>done_flag := True\<rparr>"

definition ResetDone :: "KalmanObjectState \<Rightarrow> KalmanObjectState" where
  "ResetDone s = s\<lparr>done_flag := False\<rparr>"

definition IsDone :: "KalmanObjectState \<Rightarrow> bool" where
  "IsDone s = done_flag s"

section \<open>Dictionaries\<close>

text \<open>
  A Python dictionary is an association list with distinct keys, in its iteration order.
  The code is Python 2 (it unpickles from a file opened in text mode): \<^verbatim>\<open>keys()\<close> and
  \<^verbatim>\<open>items()\<close> return new lists. A new key is put at the end; Python 2 orders the keys
  by their hashes, which is not modelled. The order decides only which object a loop
  reaches first.
\<close>

type_synonym oid = int
type_synonym 'v dict = "(oid \<times> 'v) list"
type_synonym params = "string \<rightharpoonup> real"

definition keys :: "'v dict \<Rightarrow> oid list" where
  "keys d = map fst d"

definition contains :: "oid \<Rightarrow> 'v dict \<Rightarrow> bool" where
  "contains k d = (k \<in> set (keys d))"

text \<open>\<^verbatim>\<open>del d[k]\<close> raises \<^verbatim>\<open>KeyError\<close> when the key is absent.\<close>

definition delitem :: "oid \<Rightarrow> 'v dict \<Rightarrow> error + 'v dict" where
  "delitem k d = (if contains k d then Inr (AList.delete k d) else Inl (KeyError (KInt k)))"

text \<open>\<^verbatim>\<open>d[k] = v\<close>.\<close>

definition setitem :: "oid \<Rightarrow> 'v \<Rightarrow> 'v dict \<Rightarrow> 'v dict" where
  "setitem k v d = AList.update k v d"

text \<open>A method call on the object stored under \<open>k\<close>, which changes the object in place.\<close>

definition on_item :: "oid \<Rightarrow> ('v \<Rightarrow> 'v) \<Rightarrow> 'v dict \<Rightarrow> 'v dict" where
  "on_item k f d = map (\<lambda>(k', v). if k' = k then (k', f v) else (k', v)) d"

text \<open>\<^verbatim>\<open>parameters[name]\<close>.\<close>

definition getparam :: "params \<Rightarrow> string \<Rightarrow> error + real" where
  "getparam ps name = (case ps name of None \<Rightarrow> Inl (KeyError (KStr name)) | Some v \<Rightarrow> Inr v)"

section \<open>Initialization of a new object\<close>

text \<open>
  \<^verbatim>\<open>SimpleRandomInitializer(parameters, pos)\<close>, with its local values as functions of
  the parameters read so far. \<open>pos\<close> is a Python list: \<^verbatim>\<open>pos[0]\<close> and \<^verbatim>\<open>pos[1]\<close> raise
  \<^verbatim>\<open>IndexError\<close> on a shorter one, and \<^verbatim>\<open>pos + v\<close> appends.
\<close>

definition init_cov :: "real \<Rightarrow> real \<Rightarrow> mat" where
  "init_cov pos_sigma a_sigma =
     (let eye2 = np_eye 2; zeros2 = np_zeros 2 2
      in np_vstack [np_hstack [times_mat (pos_sigma * pos_sigma) eye2, zeros2],
                    np_hstack [zeros2, times_mat (a_sigma * a_sigma) eye2]])"

definition init_delta :: "real \<Rightarrow> real \<Rightarrow> real" where
  "init_delta v_mean dt = v_mean * dt"

definition init_mean :: "real \<Rightarrow> vec \<Rightarrow> vec" where
  "init_mean delta pos =
     [pos ! 0 - delta, pos ! 1 - delta, pos ! 0 - (1 - delta), pos ! 1 - (1 - delta)]"

definition init_side :: "vec \<Rightarrow> nat" where
  "init_side mean = np_argmin (np_abs mean)"

definition init_v :: "real \<Rightarrow> nat \<Rightarrow> error + vec" where
  "init_v v_mean side =
     (let v = [0, 0]
      in if side = 0 then Inr (v[0 := v_mean])
         else if side = 1 then Inr (v[1 := v_mean])
         else if side = 2 then Inr (v[0 := - v_mean])
         else if side = 3 then Inr (v[1 := - v_mean])
         else Inl AssertionError)"

definition SimpleRandomInitializer :: "params \<Rightarrow> vec \<Rightarrow> error + KalmanObjectState" where
  "SimpleRandomInitializer ps pos =
     (case getparam ps ''pos_sigma'' of Inl e \<Rightarrow> Inl e | Inr pos_sigma \<Rightarrow>
     (case getparam ps ''a_sigma'' of Inl e \<Rightarrow> Inl e | Inr a_sigma \<Rightarrow>
      let cov = init_cov pos_sigma a_sigma in
     (case getparam ps ''v_mean'' of Inl e \<Rightarrow> Inl e | Inr v_mean \<Rightarrow>
     (case getparam ps ''dt'' of Inl e \<Rightarrow> Inl e | Inr dt \<Rightarrow>
      let delta = init_delta v_mean dt in
      if length pos < 2 then Inl IndexError else
      let mean = init_mean delta pos;
          side = init_side mean in
     (case init_v v_mean side of Inl e \<Rightarrow> Inl e | Inr v \<Rightarrow>
      let po = pos;
          xe = pos @ v
      in Inr (KalmanObjectState_init po xe xe cov True))))))"

section \<open>The filter\<close>

text \<open>
  The state of a \<^verbatim>\<open>KalmanFilterBasic\<close>: the fields of \<^verbatim>\<open>Predictor\<close>,
  \<^verbatim>\<open>KalmanFilterGeneric\<close> and \<^verbatim>\<open>KalmanFilterBasic\<close> that the estimation reads or
  writes. The data directory is what the frame files in it hold: for a frame number, the
  dictionary that \<^verbatim>\<open>data_reader.ReadStateWithID\<close> returns for the file of that frame
  (identity to true position, true velocity and observed position, each a list), or
  \<open>None\<close> when there is no such file.
\<close>

type_synonym obj_record = "vec \<times> vec \<times> vec"
type_synonym input_data = "obj_record dict"

record KalmanFilter =
  data_dir :: "nat \<Rightarrow> input_data option"
  parameters :: params
  pos_error :: "real list"
  vel_error :: "real list"
  state :: "KalmanObjectState dict"
  F :: mat
  H :: mat
  Q :: mat
  R :: mat
  InitializeObject :: "params \<Rightarrow> vec \<Rightarrow> error + KalmanObjectState"

text \<open>
  The constructors. \<^verbatim>\<open>Predictor.__init__\<close> unpickles the parameters from a file; the
  model takes the unpickled dictionary. \<^verbatim>\<open>KalmanFilterGeneric.__init__\<close> reads \<^verbatim>\<open>dt\<close>,
  \<^verbatim>\<open>pos_sigma\<close> and \<^verbatim>\<open>a_sigma\<close>, in this order, and builds the four matrices.
\<close>

definition model_F :: "real \<Rightarrow> mat" where
  "model_F dt =
     (let eye2 = np_eye 2; zeros2 = np_zeros 2 2
      in np_vstack [np_hstack [eye2, mat_times eye2 dt], np_hstack [zeros2, eye2]])"

definition model_H :: mat where
  "model_H = (let eye2 = np_eye 2; zeros2 = np_zeros 2 2 in np_hstack [eye2, zeros2])"

definition model_G :: "real \<Rightarrow> mat" where
  "model_G dt =
     (let eye2 = np_eye 2
      in np_vstack [mat_div (mat_times (mat_times eye2 dt) dt) 2, mat_times eye2 dt])"

definition model_Q :: "real \<Rightarrow> real \<Rightarrow> mat" where
  "model_Q dt a_sigma =
     (let G = model_G dt in times_mat (a_sigma * a_sigma) (np_matmul G (np_transpose G)))"

definition model_R :: "real \<Rightarrow> mat" where
  "model_R pos_sigma = times_mat (pos_sigma * pos_sigma) (np_eye 2)"

definition KalmanFilterBasic_init ::
  "(nat \<Rightarrow> input_data option) \<Rightarrow> params \<Rightarrow> (params \<Rightarrow> vec \<Rightarrow> error + KalmanObjectState)
     \<Rightarrow> error + KalmanFilter" where
  "KalmanFilterBasic_init dir ps ObjectInitializer =
     (case getparam ps ''dt'' of Inl e \<Rightarrow> Inl e | Inr dt \<Rightarrow>
     (case getparam ps ''pos_sigma'' of Inl e \<Rightarrow> Inl e | Inr pos_sigma \<Rightarrow>
     (case getparam ps ''a_sigma'' of Inl e \<Rightarrow> Inl e | Inr a_sigma \<Rightarrow>
      Inr \<lparr>data_dir = dir, parameters = ps, pos_error = [], vel_error = [], state = [],
           F = model_F dt, H = model_H, Q = model_Q dt a_sigma, R = model_R pos_sigma,
           InitializeObject = ObjectInitializer\<rparr>)))"

subsection \<open>Estimate: the predict phase\<close>

definition predict_object :: "KalmanFilter \<Rightarrow> KalmanObjectState \<Rightarrow> KalmanObjectState" where
  "predict_object flt s =
     (let xp = np_matmul_vec (F flt) (GetEstimatedState s);
          xcov = mat_add (np_matmul (np_matmul (F flt) (GetStateCov s)) (np_transpose (F flt)))
                         (Q flt)
      in ResetDone (SetStateCov xcov (SetPredictedState xp s)))"

definition predict_phase :: "KalmanFilter \<Rightarrow> KalmanFilter" where
  "predict_phase flt = flt\<lparr>state := map (\<lambda>(oid, s). (oid, predict_object flt s)) (state flt)\<rparr>"

subsection \<open>UpdateTrackedObjects\<close>

text \<open>
  The first loop runs over \<^verbatim>\<open>tracking\<close>, the list of keys taken before the loop, and
  deletes from the dictionary as it goes.
\<close>

fun stop_tracking ::
  "input_data \<Rightarrow> oid list \<Rightarrow> KalmanObjectState dict \<Rightarrow> error + KalmanObjectState dict" where
  "stop_tracking input [] st = Inr st"
| "stop_tracking input (k # tracking) st =
     (if \<not> contains k input
      then (case delitem k st of Inl e \<Rightarrow> Inl e | Inr st' \<Rightarrow> stop_tracking input tracking st')
      else stop_tracking input tracking st)"

fun update_observed ::
  "KalmanFilter \<Rightarrow> input_data \<Rightarrow> KalmanObjectState dict \<Rightarrow> error + KalmanObjectState dict" where
  "update_observed flt [] st = Inr st"
| "update_observed flt ((k, obj_state) # items) st =
     (case (if contains k st
            then Inr (on_item k (SetObservation (snd (snd obj_state))) st)
            else (case InitializeObject flt (parameters flt) (snd (snd obj_state)) of
                    Inl e \<Rightarrow> Inl e
                  | Inr object_state \<Rightarrow> Inr (setitem k (MarkDone object_state) st)))
      of Inl e \<Rightarrow> Inl e
       | Inr st' \<Rightarrow>
           update_observed flt items
             (on_item k (SetTrueState (fst obj_state) (fst (snd obj_state))) st'))"

definition UpdateTrackedObjects :: "KalmanFilter \<Rightarrow> nat \<Rightarrow> error + KalmanFilter" where
  "UpdateTrackedObjects flt frame =
     (case data_dir flt frame of
        None \<Rightarrow> Inl (SystemExit 1)
      | Some input \<Rightarrow>
         (case stop_tracking input (keys (state flt)) (state flt) of
            Inl e \<Rightarrow> Inl e
          | Inr st \<Rightarrow>
             (case update_observed flt input st of
                Inl e \<Rightarrow> Inl e
              | Inr st' \<Rightarrow> Inr (flt\<lparr>state := st'\<rparr>))))"

subsection \<open>Estimate: the correction phase\<close>

definition innovation :: "KalmanFilter \<Rightarrow> KalmanObjectState \<Rightarrow> vec" where
  "innovation flt s = vec_sub (GetObservation s) (np_matmul_vec (H flt) (GetPredictedState s))"

definition innovation_cov :: "KalmanFilter \<Rightarrow> mat \<Rightarrow> mat" where
  "innovation_cov flt xcov =
     mat_add (np_matmul (np_matmul (H flt) xcov) (np_transpose (H flt))) (R flt)"

definition gain :: "KalmanFilter \<Rightarrow> mat \<Rightarrow> mat \<Rightarrow> mat" where
  "gain flt xcov Sinv = np_matmul (np_matmul xcov (np_transpose (H flt))) Sinv"

definition correct_object :: "KalmanFilter \<Rightarrow> KalmanObjectState \<Rightarrow> error + KalmanObjectState" where
  "correct_object flt s =
     (if IsDone s then Inr s
      else
        let xp = GetPredictedState s;
            xcov = GetStateCov s;
            y = innovation flt s;
            S = innovation_cov flt xcov
        in (case np_linalg_inv S of
              Inl e \<Rightarrow> Inl e
            | Inr Sinv \<Rightarrow>
                let K = gain flt xcov Sinv;
                    xe = vec_add xp (np_matmul_vec K y);
                    KH = np_matmul K (H flt);
                    xcov' = np_matmul (mat_sub (np_eye (length KH)) KH) (GetStateCov s)
                in Inr (MarkDone (SetStateCov xcov' (SetEstimatedState xe s)))))"

fun correct_loop ::
  "KalmanFilter \<Rightarrow> KalmanObjectState dict \<Rightarrow> error + KalmanObjectState dict" where
  "correct_loop flt [] = Inr []"
| "correct_loop flt ((k, s) # items) =
     (case correct_object flt s of
        Inl e \<Rightarrow> Inl e
      | Inr s' \<Rightarrow>
         (case correct_loop flt items of
            Inl e \<Rightarrow> Inl e
          | Inr items' \<Rightarrow> Inr ((k, s') # items')))"

definition correct_phase :: "KalmanFilter \<Rightarrow> error + KalmanFilter" where
  "correct_phase flt =
     (case correct_loop flt (state flt) of
        Inl e \<Rightarrow> Inl e
      | Inr st \<Rightarrow> Inr (flt\<lparr>state := st\<rparr>))"

definition Estimate :: "KalmanFilter \<Rightarrow> nat \<Rightarrow> error + KalmanFilter" where
  "Estimate flt frame =
     (case UpdateTrackedObjects (predict_phase flt) frame of
        Inl e \<Rightarrow> Inl e
      | Inr flt' \<Rightarrow> correct_phase flt')"

subsection \<open>ComputeError and Run\<close>

definition np_power2 :: "vec \<Rightarrow> vec" where
  "np_power2 v = map (\<lambda>x. x ^ 2) v"

text \<open>
  The loop of \<^verbatim>\<open>ComputeError\<close>. Subtracting a true state that is still \<^verbatim>\<open>None\<close> raises
  \<^verbatim>\<open>TypeError\<close>.
\<close>

fun error_loop :: "KalmanObjectState dict \<Rightarrow> real \<times> real \<Rightarrow> error + real \<times> real" where
  "error_loop [] acc = Inr acc"
| "error_loop ((k, s) # items) (frame_pos_error, frame_vel_error) =
     (let est = GetEstimatedState s;
          xe = take 2 est;
          ve = take 2 (drop 2 est)
      in (case GetTrueState s of
            (Some xt, Some vt) \<Rightarrow>
              error_loop items
                (frame_pos_error + sqrt (sum_list (np_power2 (vec_sub xe xt))),
                 frame_vel_error + sqrt (sum_list (np_power2 (vec_sub ve vt))))
          | _ \<Rightarrow> Inl TypeError))"

text \<open>
  With no object the two sums are still the integer 0 and \<^verbatim>\<open>num_objects\<close> is 0: the
  first division raises \<^verbatim>\<open>ZeroDivisionError\<close> before anything is appended.
\<close>

definition ComputeError :: "KalmanFilter \<Rightarrow> error + KalmanFilter" where
  "ComputeError flt =
     (case error_loop (state flt) (0, 0) of
        Inl e \<Rightarrow> Inl e
      | Inr (frame_pos_error, frame_vel_error) \<Rightarrow>
          let num_objects = length (state flt)
          in if num_objects = 0 then Inl ZeroDivisionError
             else Inr (flt\<lparr>pos_error := pos_error flt @ [frame_pos_error / real num_objects],
                          vel_error := vel_error flt @ [frame_vel_error / real num_objects]\<rparr>))"

text \<open>
  \<^verbatim>\<open>Run\<close>: for each frame \<^verbatim>\<open>Estimate\<close>, then \<^verbatim>\<open>ComputeError\<close>. \<^verbatim>\<open>f%log_freq\<close>
  raises \<^verbatim>\<open>ZeroDivisionError\<close> for a zero \<^verbatim>\<open>log_freq\<close>. Printing, the rendering of
  \<^verbatim>\<open>SaveEstimateAsImage\<close> (it reads and writes image files and changes no field of
  the filter) and the pickling of the two error lists are left out.
\<close>

fun run_frames :: "int \<Rightarrow> nat list \<Rightarrow> KalmanFilter \<Rightarrow> error + KalmanFilter" where
  "run_frames log_freq [] flt = Inr flt"
| "run_frames log_freq (f # fs) flt =
     (if log_freq = 0 then Inl ZeroDivisionError
      else (case Estimate flt f of
              Inl e \<Rightarrow> Inl e
            | Inr flt1 \<Rightarrow>
               (case ComputeError flt1 of
                  Inl e \<Rightarrow> Inl e
                | Inr flt2 \<Rightarrow> run_frames log_freq fs flt2)))"

definition Run :: "KalmanFilter \<Rightarrow> nat \<Rightarrow> int \<Rightarrow> error + KalmanFilter" where
  "Run flt frames log_freq = run_frames log_freq [0..<frames] flt"

section \<open>The removal of an identity in two phases\<close>

text \<open>
  The removal as the specification words it: first the identities to remove are
  collected from the keys, then each of them is deleted. It is compared with
  \<open>stop_tracking\<close> below.
\<close>

definition removals :: "input_data \<Rightarrow> KalmanObjectState dict \<Rightarrow> oid list" where
  "removals input st = filter (\<lambda>k. \<not> contains k input) (keys st)"

fun apply_removals :: "oid list \<Rightarrow> KalmanObjectState dict \<Rightarrow> error + KalmanObjectState dict" where
  "apply_removals [] st = Inr st"
| "apply_removals (k # ks) st =
     (case delitem k st of Inl e \<Rightarrow> Inl e | Inr st' \<Rightarrow> apply_removals ks st')"

definition two_phase_removal :: "input_data \<Rightarrow> KalmanObjectState dict \<Rightarrow> error + KalmanObjectState dict" where
  "two_phase_removal input st = apply_removals (removals input st) st"

section \<open>Symmetric and positive semi-definite covariances\<close>






section \<open>Shapes\<close>



section \<open>A run of three frames\<close>

text \<open>
  Concrete data, used to evaluate the definitions: the parameters of the initialization
  fixture, a data directory with three frames (identities 1 and 2 appear in frame 0, 1 is
  gone and 3 is new in frame 1, frame 2 has the identity 4 only), and the filter at the
  points of this run.
\<close>

definition fixture_params :: params where
  "fixture_params =
     [''dt'' \<mapsto> 1, ''pos_sigma'' \<mapsto> 1, ''a_sigma'' \<mapsto> 1 / 10, ''v_mean'' \<mapsto> 1]"

definition empty_filter :: KalmanFilter where
  "empty_filter =
     \<lparr>data_dir = (\<lambda>f. None), parameters = fixture_params, pos_error = [], vel_error = [],
      state = [], F = model_F 1, H = model_H, Q = model_Q 1 (1 / 10), R = model_R 1,
      InitializeObject = SimpleRandomInitializer\<rparr>"

definition demo_input0 :: input_data where
  "demo_input0 = [(1, ([0, 0], [- 1, 0], [0, 0])), (2, ([1, 1 / 2], [1, 0], [1, 1 / 2]))]"

definition demo_input1 :: input_data where
  "demo_input1 = [(2, ([2, 1 / 2], [1, 0], [21 / 10, 1 / 2])),
                  (3, ([1 / 2, 0], [0, - 1], [1 / 2, 0]))]"

definition demo_input2 :: input_data where
  "demo_input2 = [(4, ([0, 0], [- 1, 0], [0, 0]))]"

definition demo_dir :: "nat \<Rightarrow> input_data option" where
  "demo_dir f =
     (if f = 0 then Some demo_input0
      else if f = 1 then Some demo_input1
      else if f = 2 then Some demo_input2
      else None)"

definition demo0 :: KalmanFilter where
  "demo0 = \<lparr>data_dir = demo_dir, parameters = fixture_params, pos_error = [], vel_error = [],
      state = [], F = model_F 1, H = model_H, Q = model_Q 1 (1 / 10), R = model_R 1,
      InitializeObject = SimpleRandomInitializer\<rparr>"

definition demo_object1 :: KalmanObjectState where
  "demo_object1 =
     \<lparr>x_obs = [0, 0], x_est = [0, 0, - 1, 0], x_pred = [0, 0, - 1, 0],
      x_cov = [[1, 0, 0, 0], [0, 1, 0, 0], [0, 0, 1 / 100, 0], [0, 0, 0, 1 / 100]],
      done_flag = True, x_true = Some [0, 0], v_true = Some [- 1, 0]\<rparr>"

definition demo_object2 :: KalmanObjectState where
  "demo_object2 =
     \<lparr>x_obs = [1, 1 / 2], x_est = [1, 1 / 2, 1, 0], x_pred = [1, 1 / 2, 1, 0],
      x_cov = [[1, 0, 0, 0], [0, 1, 0, 0], [0, 0, 1 / 100, 0], [0, 0, 0, 1 / 100]],
      done_flag = True, x_true = Some [1, 1 / 2], v_true = Some [1, 0]\<rparr>"

definition demo_object3 :: KalmanObjectState where
  "demo_object3 =
     \<lparr>x_obs = [1 / 2, 0], x_est = [1 / 2, 0, 0, - 1], x_pred = [1 / 2, 0, 0, - 1],
      x_cov = [[1, 0, 0, 0], [0, 1, 0, 0], [0, 0, 1 / 100, 0], [0, 0, 0, 1 / 100]],
      done_flag = True, x_true = Some [1 / 2, 0], v_true = Some [0, - 1]\<rparr>"

text \<open>Object 2 in frame 1: after the predict phase and the refresh, and after the correction.\<close>

definition demo_object2_pending :: KalmanObjectState where
  "demo_object2_pending =
     \<lparr>x_obs = [21 / 10, 1 / 2], x_est = [1, 1 / 2, 1, 0], x_pred = [2, 1 / 2, 1, 0],
      x_cov = [[81 / 80, 0, 3 / 200, 0], [0, 81 / 80, 0, 3 / 200],
               [3 / 200, 0, 1 / 50, 0], [0, 3 / 200, 0, 1 / 50]],
      done_flag = False, x_true = Some [2, 1 / 2], v_true = Some [1, 0]\<rparr>"

definition demo_object2_corrected :: KalmanObjectState where
  "demo_object2_corrected =
     \<lparr>x_obs = [21 / 10, 1 / 2], x_est = [3301 / 1610, 1 / 2, 4028 / 4025, 0],
      x_pred = [2, 1 / 2, 1, 0],
      x_cov = [[81 / 161, 0, 6 / 805, 0], [0, 81 / 161, 0, 6 / 805],
               [6 / 805, 0, 1601 / 80500, 0], [0, 6 / 805, 0, 1601 / 80500]],
      done_flag = True, x_true = Some [2, 1 / 2], v_true = Some [1, 0]\<rparr>"

definition demo1 :: KalmanFilter where
  "demo1 = demo0\<lparr>pos_error := [0], vel_error := [0],
                  state := [(1, demo_object1), (2, demo_object2)]\<rparr>"

definition demo1_pending :: KalmanFilter where
  "demo1_pending = demo1\<lparr>state := [(2, demo_object2_pending), (3, demo_object3)]\<rparr>"

definition demo2 :: KalmanFilter where
  "demo2 = demo1\<lparr>state := [(2, demo_object2_corrected), (3, demo_object3)]\<rparr>"

text \<open>Parameters without \<^verbatim>\<open>v_mean\<close>, and the filter constructed from them.\<close>

definition no_v_mean_params :: params where
  "no_v_mean_params = [''dt'' \<mapsto> 1, ''pos_sigma'' \<mapsto> 1, ''a_sigma'' \<mapsto> 1 / 10]"

definition no_v_mean_filter :: KalmanFilter where
  "no_v_mean_filter =
     \<lparr>data_dir = demo_dir, parameters = no_v_mean_params, pos_error = [], vel_error = [],
      state = [], F = model_F 1, H = model_H, Q = model_Q 1 (1 / 10), R = model_R 1,
      InitializeObject = SimpleRandomInitializer\<rparr>"

text \<open>An object whose observation is exactly \<open>H x_pred\<close>, and an object as the initializer returns it.\<close>

definition demo_object2_zero :: KalmanObjectState where
  "demo_object2_zero = demo_object2_pending\<lparr>x_obs := [2, 1 / 2]\<rparr>"

definition demo1_zero :: KalmanFilter where
  "demo1_zero = demo1\<lparr>state := [(2, demo_object2_zero)]\<rparr>"

definition demo_init3 :: KalmanObjectState where
  "demo_init3 = demo_object3\<lparr>x_true := None, v_true := None\<rparr>"

section \<open>The covariance updates in double arithmetic\<close>








text \<open>
  The array operations with every arithmetic result passed through a rounding \<open>rnd\<close>:
  with \<open>fl\<close> they are the operations on doubles, with the identity they are the exact
  operations above. A dot product rounds each product and adds the products in index
  order, rounding each sum.
\<close>

definition dot_rnd :: "(real \<Rightarrow> real) \<Rightarrow> vec \<Rightarrow> vec \<Rightarrow> real" where
  "dot_rnd rnd u v = foldl (\<lambda>s p. rnd (s + p)) 0 (map2 (\<lambda>x y. rnd (x * y)) u v)"

definition matmul_rnd :: "(real \<Rightarrow> real) \<Rightarrow> mat \<Rightarrow> mat \<Rightarrow> mat" where
  "matmul_rnd rnd A B = map (\<lambda>row. map (\<lambda>col. dot_rnd rnd row col) (np_transpose B)) A"

definition mat_add_rnd :: "(real \<Rightarrow> real) \<Rightarrow> mat \<Rightarrow> mat \<Rightarrow> mat" where
  "mat_add_rnd rnd A B = map2 (map2 (\<lambda>x y. rnd (x + y))) A B"

definition mat_sub_rnd :: "(real \<Rightarrow> real) \<Rightarrow> mat \<Rightarrow> mat \<Rightarrow> mat" where
  "mat_sub_rnd rnd A B = map2 (map2 (\<lambda>x y. rnd (x - y))) A B"

definition mat_times_rnd :: "(real \<Rightarrow> real) \<Rightarrow> mat \<Rightarrow> real \<Rightarrow> mat" where
  "mat_times_rnd rnd A c = map (map (\<lambda>x. rnd (x * c))) A"

definition mat_div_rnd :: "(real \<Rightarrow> real) \<Rightarrow> mat \<Rightarrow> real \<Rightarrow> mat" where
  "mat_div_rnd rnd A c = map (map (\<lambda>x. rnd (x / c))) A"

definition times_mat_rnd :: "(real \<Rightarrow> real) \<Rightarrow> real \<Rightarrow> mat \<Rightarrow> mat" where
  "times_mat_rnd rnd c A = map (map (\<lambda>x. rnd (c * x))) A"

text \<open>
  \<^verbatim>\<open>np.linalg.inv\<close> on doubles solves \<open>S X = I\<close> by the LU factorisation with partial
  pivoting of LAPACK's \<^verbatim>\<open>dgesv\<close>: the pivot of the first column is its entry of larger
  absolute value (the first on a tie), the multiplier is the other entry times the
  reciprocal of the pivot, and each column of the identity, permuted like the rows, is
  solved forward and then backward. \<open>lu_solve\<close> solves one column.
\<close>

definition lu_solve ::
  "(real \<Rightarrow> real) \<Rightarrow> real \<Rightarrow> real \<Rightarrow> real \<Rightarrow> real \<Rightarrow> real \<Rightarrow> real \<Rightarrow> vec" where
  "lu_solve rnd u11 u12 l u22 b1 b2 =
     (let y2 = rnd (b2 - rnd (l * b1));
          x2 = rnd (y2 / u22);
          x1 = rnd (rnd (b1 - rnd (x2 * u12)) / u11)
      in [x1, x2])"

fun linalg_inv_rnd :: "(real \<Rightarrow> real) \<Rightarrow> mat \<Rightarrow> error + mat" where
  "linalg_inv_rnd rnd [[a, b], [c, d]] =
     (let swap = \<bar>a\<bar> < \<bar>c\<bar>;
          u11 = (if swap then c else a);
          u12 = (if swap then d else b);
          m = (if swap then a else c);
          n = (if swap then b else d)
      in if u11 = 0 then Inl LinAlgError
         else
           let l = rnd (m * rnd (1 / u11));
               u22 = rnd (n - rnd (l * u12))
           in if u22 = 0 then Inl LinAlgError
              else
                let col1 = (if swap then lu_solve rnd u11 u12 l u22 0 1
                            else lu_solve rnd u11 u12 l u22 1 0);
                    col2 = (if swap then lu_solve rnd u11 u12 l u22 1 0
                            else lu_solve rnd u11 u12 l u22 0 1)
                in Inr (np_transpose [col1, col2]))"
| "linalg_inv_rnd rnd _ = Inl LinAlgError"

text \<open>
  The matrices of the constructor, the covariance of the initializer, and the two
  covariance updates of \<^verbatim>\<open>Estimate\<close>, each as the source computes it.
\<close>

definition model_F_rnd :: "(real \<Rightarrow> real) \<Rightarrow> real \<Rightarrow> mat" where
  "model_F_rnd rnd dt =
     (let eye2 = np_eye 2; zeros2 = np_zeros 2 2
      in np_vstack [np_hstack [eye2, mat_times_rnd rnd eye2 dt], np_hstack [zeros2, eye2]])"

definition model_G_rnd :: "(real \<Rightarrow> real) \<Rightarrow> real \<Rightarrow> mat" where
  "model_G_rnd rnd dt =
     (let eye2 = np_eye 2
      in np_vstack [mat_div_rnd rnd (mat_times_rnd rnd (mat_times_rnd rnd eye2 dt) dt) 2,
                    mat_times_rnd rnd eye2 dt])"

definition model_Q_rnd :: "(real \<Rightarrow> real) \<Rightarrow> real \<Rightarrow> real \<Rightarrow> mat" where
  "model_Q_rnd rnd dt a_sigma =
     (let G = model_G_rnd rnd dt
      in times_mat_rnd rnd (rnd (a_sigma * a_sigma)) (matmul_rnd rnd G (np_transpose G)))"

definition model_R_rnd :: "(real \<Rightarrow> real) \<Rightarrow> real \<Rightarrow> mat" where
  "model_R_rnd rnd pos_sigma = times_mat_rnd rnd (rnd (pos_sigma * pos_sigma)) (np_eye 2)"

definition init_cov_rnd :: "(real \<Rightarrow> real) \<Rightarrow> real \<Rightarrow> real \<Rightarrow> mat" where
  "init_cov_rnd rnd pos_sigma a_sigma =
     (let eye2 = np_eye 2; zeros2 = np_zeros 2 2
      in np_vstack [np_hstack [times_mat_rnd rnd (rnd (pos_sigma * pos_sigma)) eye2, zeros2],
                    np_hstack [zeros2, times_mat_rnd rnd (rnd (a_sigma * a_sigma)) eye2]])"

definition predict_cov_rnd :: "(real \<Rightarrow> real) \<Rightarrow> mat \<Rightarrow> mat \<Rightarrow> mat \<Rightarrow> mat" where
  "predict_cov_rnd rnd Fm Qm xcov =
     mat_add_rnd rnd (matmul_rnd rnd (matmul_rnd rnd Fm xcov) (np_transpose Fm)) Qm"

definition correct_cov_rnd :: "(real \<Rightarrow> real) \<Rightarrow> mat \<Rightarrow> mat \<Rightarrow> mat \<Rightarrow> error + mat" where
  "correct_cov_rnd rnd Hm Rm xcov =
     (let S = mat_add_rnd rnd (matmul_rnd rnd (matmul_rnd rnd Hm xcov) (np_transpose Hm)) Rm
      in (case linalg_inv_rnd rnd S of
            Inl e \<Rightarrow> Inl e
          | Inr Sinv \<Rightarrow>
              let K = matmul_rnd rnd (matmul_rnd rnd xcov (np_transpose Hm)) Sinv;
                  KH = matmul_rnd rnd K Hm
              in Inr (matmul_rnd rnd (mat_sub_rnd rnd (np_eye (length KH)) KH) xcov)))"








section \<open>Evaluation of the array operations\<close>

lemma upt_2: "[0..<2] = [0, 1]"
  by (simp add: upt_conv_Cons)

lemma upt_4: "[0..<4] = [0, 1, 2, 3]"
  by (simp add: upt_conv_Cons)

lemma np_eye_2: "np_eye 2 = [[1, 0], [0, 1]]"
  by (simp add: np_eye_def upt_2)

lemma np_eye_4: "np_eye 4 = [[1, 0, 0, 0], [0, 1, 0, 0], [0, 0, 1, 0], [0, 0, 0, 1]]"
  by (simp add: np_eye_def upt_4)

lemma np_zeros_2_2: "np_zeros 2 2 = [[0, 0], [0, 0]]"
  by (simp add: np_zeros_def eval_nat_numeral)

lemma init_cov_eq:
  "init_cov p a = [[p * p, 0, 0, 0], [0, p * p, 0, 0], [0, 0, a * a, 0], [0, 0, 0, a * a]]"
  by (simp add: init_cov_def np_eye_2 np_zeros_2_2 times_mat_def np_vstack_def)

lemma np_eye_Suc4: "np_eye (Suc (Suc (Suc (Suc 0)))) = np_eye 4"
  by (simp add: eval_nat_numeral)

lemma np_transpose_4x2:
  "np_transpose [[a0, a1], [b0, b1], [c0, c1], [d0, d1]] = [[a0, b0, c0, d0], [a1, b1, c1, d1]]"
  by (simp add: np_transpose_def upt_2)

lemma np_transpose_2x4:
  "np_transpose [[a0, a1, a2, a3], [b0, b1, b2, b3]] = [[a0, b0], [a1, b1], [a2, b2], [a3, b3]]"
  by (simp add: np_transpose_def upt_4)

lemma np_transpose_2x2:
  "np_transpose [[a0, a1], [b0, b1]] = [[a0, b0], [a1, b1]]"
  by (simp add: np_transpose_def upt_2)

lemma np_transpose_4x4:
  "np_transpose [[a0, a1, a2, a3], [b0, b1, b2, b3], [c0, c1, c2, c3], [d0, d1, d2, d3]]
   = [[a0, b0, c0, d0], [a1, b1, c1, d1], [a2, b2, c2, d2], [a3, b3, c3, d3]]"
  by (simp add: np_transpose_def upt_4)

lemmas np_transpose_simps = np_transpose_4x2 np_transpose_2x4 np_transpose_2x2 np_transpose_4x4

lemma model_F_eq: "model_F dt = [[1, 0, dt, 0], [0, 1, 0, dt], [0, 0, 1, 0], [0, 0, 0, 1]]"
  by (simp add: model_F_def np_eye_2 np_zeros_2_2 mat_times_def np_vstack_def)

lemma model_H_eq: "model_H = [[1, 0, 0, 0], [0, 1, 0, 0]]"
  by (simp add: model_H_def np_eye_2 np_zeros_2_2)

lemma model_G_eq: "model_G dt = [[dt * dt / 2, 0], [0, dt * dt / 2], [dt, 0], [0, dt]]"
  by (simp add: model_G_def np_eye_2 mat_times_def mat_div_def np_vstack_def)

lemma model_Q_eq:
  "model_Q dt a = 
    [[a * a * (dt * dt / 2 * (dt * dt / 2)), 0, a * a * (dt * dt / 2 * dt), 0],
     [0, a * a * (dt * dt / 2 * (dt * dt / 2)), 0, a * a * (dt * dt / 2 * dt)],
     [a * a * (dt * (dt * dt / 2)), 0, a * a * (dt * dt), 0],
     [0, a * a * (dt * (dt * dt / 2)), 0, a * a * (dt * dt)]]"
  by (simp add: model_Q_def model_G_eq np_matmul_def np_transpose_simps dot_def times_mat_def)

lemma model_R_eq: "model_R p = [[p * p, 0], [0, p * p]]"
  by (simp add: model_R_def np_eye_2 times_mat_def)

lemma model_Q_explicit:
  "model_Q dt a =
    [[a\<^sup>2 * dt ^ 4 / 4, 0, a\<^sup>2 * dt ^ 3 / 2, 0],
     [0, a\<^sup>2 * dt ^ 4 / 4, 0, a\<^sup>2 * dt ^ 3 / 2],
     [a\<^sup>2 * dt ^ 3 / 2, 0, a\<^sup>2 * dt\<^sup>2, 0],
     [0, a\<^sup>2 * dt ^ 3 / 2, 0, a\<^sup>2 * dt\<^sup>2]]"
  by (simp add: model_Q_eq power2_eq_square power3_eq_cube power4_eq_xxxx)

lemmas object_defs = KalmanObjectState_init_def SetTrueState_def GetTrueState_def
  SetObservation_def GetObservation_def SetPredictedState_def GetPredictedState_def
  SetStateCov_def GetStateCov_def SetEstimatedState_def GetEstimatedState_def
  MarkDone_def ResetDone_def IsDone_def

lemmas dict_defs = keys_def contains_def delitem_def setitem_def on_item_def

lemmas array_defs = np_matmul_def np_matmul_vec_def dot_def vec_add_def vec_sub_def
  mat_add_def mat_sub_def np_transpose_simps np_eye_Suc4 np_eye_4 np_eye_2

lemmas initializer_defs = SimpleRandomInitializer_def getparam_def init_cov_eq
  init_delta_def init_mean_def init_side_def np_abs_def init_v_def

lemmas estimate_defs = Estimate_def predict_phase_def predict_object_def
  UpdateTrackedObjects_def correct_phase_def correct_object_def innovation_def
  innovation_cov_def gain_def model_F_eq model_H_eq model_Q_eq model_R_eq

lemmas demo_defs = demo_dir_def demo_input0_def demo_input1_def demo_input2_def demo0_def
  demo1_def demo1_pending_def demo2_def demo_object1_def demo_object2_def demo_object3_def
  demo_object2_pending_def demo_object2_corrected_def fixture_params_def

lemma dot_zeros2: "dot row [0, 0] = 0"
  by (cases row; cases "tl row") (auto simp: dot_def)

lemma vec_sub_self: "vec_sub v v = replicate (length v) 0"
  by (induction v) (auto simp: vec_sub_def)

lemma vec_add_zeros: "length v \<le> n \<Longrightarrow> vec_add v (replicate n 0) = v"
proof (induction v arbitrary: n)
  case Nil
  then show ?case by (simp add: vec_add_def)
next
  case (Cons a v)
  then obtain m where "n = Suc m" by (cases n) auto
  with Cons show ?case by (simp add: vec_add_def)
qed

lemma np_matmul_vec_zeros2: "np_matmul_vec K [0, 0] = replicate (length K) 0"
  by (induction K) (auto simp: np_matmul_vec_def dot_zeros2)

lemma length_np_matmul: "length (np_matmul A B) = length A"
  by (simp add: np_matmul_def)

lemma length_np_matmul_vec: "length (np_matmul_vec A v) = length A"
  by (simp add: np_matmul_vec_def)

lemma np_linalg_inv_InrD:
  assumes "np_linalg_inv S = Inr Sinv"
  obtains a b c d where "S = [[a, b], [c, d]]" and "a * d - b * c \<noteq> 0"
    and "Sinv = [[d / (a * d - b * c), - b / (a * d - b * c)],
                 [- c / (a * d - b * c), a / (a * d - b * c)]]"
  using assms by (cases S rule: np_linalg_inv.cases) (auto simp: Let_def split: if_splits)

lemma np_linalg_inv_correct:
  assumes "np_linalg_inv S = Inr Sinv"
  shows "np_matmul S Sinv = np_eye 2 \<and> np_matmul Sinv S = np_eye 2"
proof -
  from assms obtain a b c d where S: "S = [[a, b], [c, d]]" and det: "a * d - b * c \<noteq> 0"
    and Sinv: "Sinv = [[d / (a * d - b * c), - b / (a * d - b * c)],
                       [- c / (a * d - b * c), a / (a * d - b * c)]]"
    by (rule np_linalg_inv_InrD)
  define dt where "dt = a * d - b * c"
  have dt: "dt \<noteq> 0" using det by (simp add: dt_def)
  have n1: "a * (d / dt) + b * (- c / dt) = (a * d - b * c) / dt"
    and n4: "c * (- b / dt) + d * (a / dt) = (a * d - b * c) / dt"
    and m1: "d / dt * a + - b / dt * c = (a * d - b * c) / dt"
    and m4: "- c / dt * b + a / dt * d = (a * d - b * c) / dt"
    by (simp_all add: diff_divide_distrib mult.commute)
  have one: "(a * d - b * c) / dt = 1"
    using dt by (simp add: dt_def)
  have e1: "a * (d / dt) + b * (- c / dt) = 1" and e4: "c * (- b / dt) + d * (a / dt) = 1"
    and f1: "d / dt * a + - b / dt * c = 1" and f4: "- c / dt * b + a / dt * d = 1"
    using n1 n4 m1 m4 one by simp_all
  have e2: "a * (- b / dt) + b * (a / dt) = 0" and e3: "c * (d / dt) + d * (- c / dt) = 0"
    and f2: "d / dt * b + - b / dt * d = 0" and f3: "- c / dt * a + a / dt * c = 0"
    by (simp_all add: mult.commute)
  show ?thesis
    unfolding S Sinv dt_def [symmetric]
    using e1 e2 e3 e4 f1 f2 f3 f4
    by (simp add: np_matmul_def np_transpose_2x2 dot_def np_eye_2)
qed

subsection \<open>The first minimum\<close>

text \<open>\<open>np_argmin\<close> returns the least index at which the list has its minimum.\<close>

lemma argmin_scan_first_min:
  assumes "bi < length ys" and "ys ! bi = bv"
    and "\<forall>j < length ys. bv \<le> ys ! j" and "\<forall>j < bi. bv < ys ! j"
  shows "argmin_scan bi bv (length ys) xs < length (ys @ xs)
       \<and> (\<forall>j < length (ys @ xs). (ys @ xs) ! argmin_scan bi bv (length ys) xs \<le> (ys @ xs) ! j)
       \<and> (\<forall>j < argmin_scan bi bv (length ys) xs.
             (ys @ xs) ! argmin_scan bi bv (length ys) xs < (ys @ xs) ! j)"
  using assms
proof (induction xs arbitrary: ys bi bv)
  case Nil
  then show ?case by auto
next
  case (Cons x xs)
  show ?case
  proof (cases "x < bv")
    case True
    have a: "length ys < length (ys @ [x])" by simp
    have b: "(ys @ [x]) ! length ys = x" by simp
    have c: "\<forall>j < length (ys @ [x]). x \<le> (ys @ [x]) ! j"
      using True Cons.prems(3) by (auto simp: nth_append less_Suc_eq dest: order.strict_trans2 less_imp_le)
    have d: "\<forall>j < length ys. x < (ys @ [x]) ! j"
      using True Cons.prems(3) by (auto simp: nth_append)
    from Cons.IH [OF a b c d] True show ?thesis by simp
  next
    case False
    have a: "bi < length (ys @ [x])" using Cons.prems(1) by simp
    have b: "(ys @ [x]) ! bi = bv" using Cons.prems(1,2) by (simp add: nth_append)
    have c: "\<forall>j < length (ys @ [x]). bv \<le> (ys @ [x]) ! j"
      using False Cons.prems(3) by (auto simp: nth_append less_Suc_eq)
    have d: "\<forall>j < bi. bv < (ys @ [x]) ! j"
      using Cons.prems(1,4) by (auto simp: nth_append)
    from Cons.IH [OF a b c d] False show ?thesis by simp
  qed
qed

lemma np_argmin_first_min:
  assumes "xs \<noteq> []"
  shows "np_argmin xs < length xs
       \<and> (\<forall>j < length xs. xs ! np_argmin xs \<le> xs ! j)
       \<and> (\<forall>j < np_argmin xs. xs ! np_argmin xs < xs ! j)"
proof -
  from assms obtain x xs' where xs: "xs = x # xs'" by (cases xs) auto
  have "argmin_scan 0 x (length [x]) xs' < length ([x] @ xs')
       \<and> (\<forall>j < length ([x] @ xs'). ([x] @ xs') ! argmin_scan 0 x (length [x]) xs' \<le> ([x] @ xs') ! j)
       \<and> (\<forall>j < argmin_scan 0 x (length [x]) xs'.
             ([x] @ xs') ! argmin_scan 0 x (length [x]) xs' < ([x] @ xs') ! j)"
    by (rule argmin_scan_first_min) simp_all
  then show ?thesis by (simp add: xs)
qed

section \<open>Dictionaries and the loops over them\<close>

lemma keys_Cons: "keys ((k, v) # d) = k # keys d"
  by (simp add: keys_def)

lemma keys_on_item: "keys (on_item k f d) = keys d"
  by (induction d) (auto simp: keys_def on_item_def)

lemma contains_on_item: "contains k' (on_item k f d) = contains k' d"
  by (simp add: contains_def keys_on_item)

lemma map_of_on_item:
  "map_of (on_item k f d) k' = (if k' = k then map_option f (map_of d k) else map_of d k')"
  by (induction d) (auto simp: on_item_def)

lemma set_keys_setitem: "set (keys (setitem k v d)) = insert k (set (keys d))"
  by (simp add: keys_def setitem_def dom_update)

lemma map_of_setitem: "map_of (setitem k v d) k' = (if k' = k then Some v else map_of d k')"
  by (simp add: setitem_def update_conv')

lemma delete_eq_filter: "AList.delete k d = filter (\<lambda>(k', v). k' \<noteq> k) d"
  by (induction d) (auto simp: AList.delete_eq)

lemma distinct_delete_keys: "distinct (keys st) \<Longrightarrow> distinct (keys (AList.delete k st))"
  by (simp add: keys_def distinct_delete)

subsection \<open>The removal loop\<close>

lemma stop_tracking_apply_removals:
  "stop_tracking input ks st = apply_removals (filter (\<lambda>k. \<not> contains k input) ks) st"
  by (induction ks arbitrary: st) (auto split: sum.splits)

lemma stop_tracking_filter:
  "distinct ks \<Longrightarrow> set ks \<subseteq> set (keys st) \<Longrightarrow>
   stop_tracking input ks st = Inr (filter (\<lambda>(k, v). \<not> (k \<in> set ks \<and> \<not> contains k input)) st)"
proof (induction ks arbitrary: st)
  case Nil
  then show ?case by simp
next
  case (Cons k ks)
  show ?case
  proof (cases "contains k input")
    case True
    have "stop_tracking input ks st =
          Inr (filter (\<lambda>(k, v). \<not> (k \<in> set ks \<and> \<not> contains k input)) st)"
      using Cons by simp
    moreover have "filter (\<lambda>(k', v). \<not> (k' \<in> set ks \<and> \<not> contains k' input)) st
        = filter (\<lambda>(k', v). \<not> (k' \<in> set (k # ks) \<and> \<not> contains k' input)) st"
      using True by (intro filter_cong) auto
    ultimately show ?thesis using True by simp
  next
    case False
    have kin: "contains k st" using Cons.prems by (simp add: contains_def)
    have sub: "set ks \<subseteq> set (keys (AList.delete k st))"
    proof
      fix x assume x: "x \<in> set ks"
      then have "x \<noteq> k" using Cons.prems by auto
      moreover obtain v where "(x, v) \<in> set st" using x Cons.prems by (auto simp: keys_def)
      ultimately show "x \<in> set (keys (AList.delete k st))"
        by (force simp: keys_def delete_eq_filter)
    qed
    have "stop_tracking input ks (AList.delete k st) =
          Inr (filter (\<lambda>(k, v). \<not> (k \<in> set ks \<and> \<not> contains k input)) (AList.delete k st))"
      using Cons.IH [OF _ sub] Cons.prems by simp
    moreover have "filter (\<lambda>(k', v). \<not> (k' \<in> set ks \<and> \<not> contains k' input)) (AList.delete k st)
        = filter (\<lambda>(k', v). \<not> (k' \<in> set (k # ks) \<and> \<not> contains k' input)) st"
      using False unfolding delete_eq_filter filter_filter
      by (intro filter_cong) auto
    ultimately show ?thesis using False kin by (simp add: delitem_def)
  qed
qed

lemma stop_tracking_keys:
  assumes "distinct (keys st)"
  shows "stop_tracking input (keys st) st = Inr (filter (\<lambda>(k, v). contains k input) st)"
proof -
  have "filter (\<lambda>(k, v). \<not> (k \<in> set (keys st) \<and> \<not> contains k input)) st
      = filter (\<lambda>(k, v). contains k input) st"
    by (intro filter_cong) (auto simp: keys_def image_iff)
  then show ?thesis using stop_tracking_filter [OF assms subset_refl, of input] by simp
qed

lemma stop_tracking_keys_subset:
  "stop_tracking input ks st = Inr st' \<Longrightarrow> set (keys st') \<subseteq> set (keys st)"
proof (induction ks arbitrary: st)
  case Nil
  then show ?case by simp
next
  case (Cons k ks)
  show ?case
  proof (cases "contains k input")
    case True
    then show ?thesis using Cons by simp
  next
    case False
    then have "stop_tracking input ks (AList.delete k st) = Inr st'"
      using Cons.prems by (auto simp: delitem_def split: if_splits)
    from Cons.IH [OF this] show ?thesis
      by (auto simp: keys_def delete_eq_filter)
  qed
qed

lemma stop_tracking_keys_eq:
  "stop_tracking input ks st = Inr st' \<Longrightarrow>
   set (keys st') = set (keys st) - {k \<in> set ks. \<not> contains k input}"
proof (induction ks arbitrary: st)
  case Nil
  then show ?case by simp
next
  case (Cons k ks)
  show ?case
  proof (cases "contains k input")
    case True
    then show ?thesis using Cons by auto
  next
    case False
    then have "stop_tracking input ks (AList.delete k st) = Inr st'"
      using Cons.prems by (auto simp: delitem_def split: if_splits)
    from Cons.IH [OF this] have "set (keys st') =
        set (keys (AList.delete k st)) - {k \<in> set ks. \<not> contains k input}" .
    moreover have "set (keys (AList.delete k st)) = set (keys st) - {k}"
      by (auto simp: keys_def delete_eq_filter)
    ultimately show ?thesis using False by auto
  qed
qed

subsection \<open>The loop over the records of a frame\<close>

lemma update_observed_state_irrelevant:
  "update_observed (flt\<lparr>state := x\<rparr>) items st = update_observed flt items st"
  by (induction items arbitrary: st) (auto split: sum.splits)

lemma update_observed_keys:
  "update_observed flt items st = Inr st' \<Longrightarrow> set (keys st') = set (keys st) \<union> set (keys items)"
proof (induction items arbitrary: st)
  case Nil
  then show ?case by (simp add: keys_def)
next
  case (Cons a items)
  obtain k r where a: "a = (k, r)" by (cases a)
  show ?case
  proof (cases "contains k st")
    case True
    then have "update_observed flt items
        (on_item k (SetTrueState (fst r) (fst (snd r))) (on_item k (SetObservation (snd (snd r))) st))
        = Inr st'"
      using Cons.prems a by simp
    from Cons.IH [OF this] have "set (keys st') = set (keys st) \<union> set (keys items)"
      by (simp add: keys_on_item)
    then show ?thesis using True by (auto simp: a keys_Cons contains_def)
  next
    case False
    then obtain obj0 where
      "update_observed flt items
        (on_item k (SetTrueState (fst r) (fst (snd r))) (setitem k (MarkDone obj0) st)) = Inr st'"
      using Cons.prems a by (auto split: sum.splits)
    from Cons.IH [OF this] have "set (keys st') = insert k (set (keys st)) \<union> set (keys items)"
      by (simp add: keys_on_item set_keys_setitem)
    then show ?thesis by (auto simp: a keys_Cons)
  qed
qed

lemma update_observed_other:
  "k \<notin> set (keys items) \<Longrightarrow> update_observed flt items st = Inr st' \<Longrightarrow>
   map_of st' k = map_of st k"
proof (induction items arbitrary: st)
  case Nil
  then show ?case by simp
next
  case (Cons a items)
  obtain k' r where a: "a = (k', r)" by (cases a)
  have ne: "k \<noteq> k'" and notin: "k \<notin> set (keys items)"
    using Cons.prems(1) by (auto simp: a keys_Cons)
  show ?case
  proof (cases "contains k' st")
    case True
    then have "update_observed flt items
        (on_item k' (SetTrueState (fst r) (fst (snd r))) (on_item k' (SetObservation (snd (snd r))) st))
        = Inr st'"
      using Cons.prems a by simp
    from Cons.IH [OF notin this] ne show ?thesis
      by (simp add: map_of_on_item)
  next
    case False
    then obtain obj0 where
      "update_observed flt items
        (on_item k' (SetTrueState (fst r) (fst (snd r))) (setitem k' (MarkDone obj0) st)) = Inr st'"
      using Cons.prems a by (auto split: sum.splits)
    from Cons.IH [OF notin this] ne show ?thesis
      by (simp add: map_of_on_item map_of_setitem)
  qed
qed

lemma update_observed_new:
  assumes "distinct (keys items)" and "map_of items k = Some r" and "\<not> contains k st"
    and "update_observed flt items st = Inr st'"
  shows "\<exists>obj0. InitializeObject flt (parameters flt) (snd (snd r)) = Inr obj0
           \<and> map_of st' k = Some (SetTrueState (fst r) (fst (snd r)) (MarkDone obj0))"
  using assms
proof (induction items arbitrary: st)
  case Nil
  then show ?case by simp
next
  case (Cons a items)
  obtain k' r' where a: "a = (k', r')" by (cases a)
  have dist: "distinct (keys items)" and k'notin: "k' \<notin> set (keys items)"
    using Cons.prems(1) by (auto simp: a keys_Cons)
  show ?case
  proof (cases "k = k'")
    case True
    then have r: "r' = r" using Cons.prems(2) a by simp
    obtain obj0 where init: "InitializeObject flt (parameters flt) (snd (snd r)) = Inr obj0"
      and rest: "update_observed flt items
        (on_item k (SetTrueState (fst r) (fst (snd r))) (setitem k (MarkDone obj0) st)) = Inr st'"
      using Cons.prems(3,4) a True r by (auto split: sum.splits)
    have "map_of st' k = map_of
        (on_item k (SetTrueState (fst r) (fst (snd r))) (setitem k (MarkDone obj0) st)) k"
      using update_observed_other [OF _ rest, of k] k'notin True by simp
    then show ?thesis using init by (simp add: map_of_on_item map_of_setitem)
  next
    case False
    then have look: "map_of items k = Some r" using Cons.prems(2) a by simp
    obtain st1 where st1: "update_observed flt items st1 = Inr st'"
      and nc: "\<not> contains k st1"
    proof (cases "contains k' st")
      case True
      then have "update_observed flt items
          (on_item k' (SetTrueState (fst r') (fst (snd r')))
             (on_item k' (SetObservation (snd (snd r'))) st)) = Inr st'"
        using Cons.prems(4) a by simp
      moreover have "\<not> contains k
          (on_item k' (SetTrueState (fst r') (fst (snd r')))
             (on_item k' (SetObservation (snd (snd r'))) st))"
        using Cons.prems(3) by (simp add: contains_on_item)
      ultimately show ?thesis using that by blast
    next
      case c: False
      then obtain obj1 where "update_observed flt items
          (on_item k' (SetTrueState (fst r') (fst (snd r'))) (setitem k' (MarkDone obj1) st))
          = Inr st'"
        using Cons.prems(4) a by (auto split: sum.splits)
      moreover have "\<not> contains k
          (on_item k' (SetTrueState (fst r') (fst (snd r'))) (setitem k' (MarkDone obj1) st))"
        using Cons.prems(3) False
        by (simp add: contains_on_item) (simp add: contains_def set_keys_setitem)
      ultimately show ?thesis using that by blast
    qed
    from Cons.IH [OF dist look nc st1] show ?thesis .
  qed
qed

subsection \<open>The phases of Estimate\<close>

lemma keys_predict_phase: "keys (state (predict_phase flt)) = keys (state flt)"
  by (simp add: predict_phase_def keys_def comp_def case_prod_unfold)

lemma predict_phase_fields:
  "data_dir (predict_phase flt) = data_dir flt"
  "parameters (predict_phase flt) = parameters flt"
  "InitializeObject (predict_phase flt) = InitializeObject flt"
  "pos_error (predict_phase flt) = pos_error flt"
  "vel_error (predict_phase flt) = vel_error flt"
  "F (predict_phase flt) = F flt"
  "H (predict_phase flt) = H flt"
  "Q (predict_phase flt) = Q flt"
  "R (predict_phase flt) = R flt"
  by (simp_all add: predict_phase_def)

lemma map_of_predict_phase:
  "map_of (state (predict_phase flt)) k = map_option (predict_object flt) (map_of (state flt) k)"
  by (induction "state flt" arbitrary: flt) (auto simp: predict_phase_def map_of_map)

lemma predict_phase_delete:
  "predict_phase (flt\<lparr>state := AList.delete k (state flt)\<rparr>)
   = (predict_phase flt)\<lparr>state := AList.delete k (state (predict_phase flt))\<rparr>"
  by (simp add: predict_phase_def delete_eq_filter filter_map comp_def case_prod_unfold
      predict_object_def)

lemma UpdateTrackedObjects_InrD:
  assumes "UpdateTrackedObjects flt frame = Inr flt'"
  obtains input st where "data_dir flt frame = Some input"
    and "stop_tracking input (keys (state flt)) (state flt) = Inr st"
    and "update_observed flt input st = Inr (state flt')"
    and "flt' = flt\<lparr>state := state flt'\<rparr>"
  using assms by (auto simp: UpdateTrackedObjects_def split: option.splits sum.splits)

lemma Estimate_InrD:
  assumes "Estimate flt frame = Inr flt'"
  obtains flt1 where "UpdateTrackedObjects (predict_phase flt) frame = Inr flt1"
    and "correct_loop flt1 (state flt1) = Inr (state flt')"
    and "flt' = flt1\<lparr>state := state flt'\<rparr>"
  using assms by (auto simp: Estimate_def correct_phase_def split: sum.splits)

lemma correct_object_done: "IsDone s \<Longrightarrow> correct_object flt s = Inr s"
  by (simp add: correct_object_def)

lemma correct_object_InrD:
  assumes "correct_object flt s = Inr s'" and "\<not> IsDone s"
  obtains Sinv where "np_linalg_inv (innovation_cov flt (GetStateCov s)) = Inr Sinv"
    and "s' = MarkDone (SetStateCov
              (np_matmul (mat_sub (np_eye (length (GetStateCov s)))
                            (np_matmul (gain flt (GetStateCov s) Sinv) (H flt)))
                 (GetStateCov s))
              (SetEstimatedState
                 (vec_add (GetPredictedState s)
                    (np_matmul_vec (gain flt (GetStateCov s) Sinv) (innovation flt s))) s))"
  using assms
  by (auto simp: correct_object_def Let_def gain_def np_matmul_def split: sum.splits)

lemma correct_phase_InrD:
  assumes "correct_phase flt = Inr flt'"
  shows "correct_loop flt (state flt) = Inr (state flt')" and "flt' = flt\<lparr>state := state flt'\<rparr>"
  using assms by (auto simp: correct_phase_def split: sum.splits)

lemma correct_loop_keys: "correct_loop flt st = Inr st' \<Longrightarrow> keys st' = keys st"
  by (induction st arbitrary: st') (auto simp: keys_def split: sum.splits)

lemma correct_loop_map_of:
  "correct_loop flt st = Inr st' \<Longrightarrow> map_of st k = Some s \<Longrightarrow>
   \<exists>s'. correct_object flt s = Inr s' \<and> map_of st' k = Some s'"
  by (induction st arbitrary: st') (auto split: sum.splits if_splits)

lemma correct_loop_total:
  "(\<And>k s. (k, s) \<in> set st \<Longrightarrow> \<exists>s'. correct_object flt s = Inr s') \<Longrightarrow>
   \<exists>st'. correct_loop flt st = Inr st'"
proof (induction st)
  case Nil
  then show ?case by simp
next
  case (Cons a st)
  obtain k s where a: "a = (k, s)" by (cases a)
  obtain s' where "correct_object flt s = Inr s'" using Cons.prems [of k s] a by auto
  moreover obtain st' where "correct_loop flt st = Inr st'" using Cons by auto
  ultimately show ?case by (simp add: a)
qed

lemma UpdateTrackedObjects_delete:
  assumes "distinct (keys (state flt))" and "data_dir flt frame = Some input"
    and "\<not> contains k input"
  shows "UpdateTrackedObjects (flt\<lparr>state := AList.delete k (state flt)\<rparr>) frame
         = UpdateTrackedObjects flt frame"
proof -
  have "filter (\<lambda>(k, s). contains k input) (AList.delete k (state flt))
        = filter (\<lambda>(k, s). contains k input) (state flt)"
    using assms(3) unfolding delete_eq_filter filter_filter
    by (intro filter_cong) auto
  then show ?thesis
    using assms(1,2) distinct_delete_keys [OF assms(1), of k]
    by (simp add: UpdateTrackedObjects_def stop_tracking_keys update_observed_state_irrelevant
        split: sum.splits)
qed

lemma Estimate_delete:
  assumes "distinct (keys (state flt))" and "data_dir flt frame = Some input"
    and "\<not> contains k input"
  shows "Estimate (flt\<lparr>state := AList.delete k (state flt)\<rparr>) frame = Estimate flt frame"
proof -
  have "distinct (keys (state (predict_phase flt)))"
    using assms(1) by (simp add: keys_predict_phase)
  moreover have "data_dir (predict_phase flt) frame = Some input"
    using assms(2) by (simp add: predict_phase_fields)
  ultimately show ?thesis
    using UpdateTrackedObjects_delete [of "predict_phase flt" frame input k] assms(3)
    by (simp add: Estimate_def predict_phase_delete)
qed

lemma UpdateTrackedObjects_keys:
  assumes "data_dir flt frame = Some input" and "UpdateTrackedObjects flt frame = Inr flt'"
  shows "set (keys (state flt')) = set (keys input)"
proof -
  from assms(2) obtain input' st where "data_dir flt frame = Some input'"
    and stop: "stop_tracking input' (keys (state flt)) (state flt) = Inr st"
    and obs: "update_observed flt input' st = Inr (state flt')"
    by (rule UpdateTrackedObjects_InrD)
  then have [simp]: "input' = input" using assms(1) by simp
  have "set (keys st) \<subseteq> set (keys input)"
    using stop_tracking_keys_eq [OF stop] by (auto simp: contains_def)
  then show ?thesis using update_observed_keys [OF obs] by auto
qed

lemma Estimate_keys:
  assumes "data_dir flt frame = Some input" and "Estimate flt frame = Inr flt'"
  shows "set (keys (state flt')) = set (keys input)"
proof -
  from assms(2) obtain flt1 where upd: "UpdateTrackedObjects (predict_phase flt) frame = Inr flt1"
    and cor: "correct_loop flt1 (state flt1) = Inr (state flt')"
    by (rule Estimate_InrD)
  have "set (keys (state flt1)) = set (keys input)"
    using UpdateTrackedObjects_keys [OF _ upd, of input] assms(1)
    by (simp add: predict_phase_fields)
  then show ?thesis using correct_loop_keys [OF cor] by simp
qed

lemma run_frames_delete:
  assumes "distinct (keys (state flt))" and "data_dir flt frame = Some input"
    and "\<not> contains k input"
  shows "run_frames log_freq (frame # fs) (flt\<lparr>state := AList.delete k (state flt)\<rparr>)
         = run_frames log_freq (frame # fs) flt"
  using Estimate_delete [OF assms] by simp

subsection \<open>Fields that a run leaves alone\<close>

lemma UpdateTrackedObjects_fields:
  assumes "UpdateTrackedObjects flt frame = Inr flt'"
  shows "F flt' = F flt \<and> H flt' = H flt \<and> Q flt' = Q flt \<and> R flt' = R flt
       \<and> parameters flt' = parameters flt \<and> data_dir flt' = data_dir flt
       \<and> InitializeObject flt' = InitializeObject flt
       \<and> pos_error flt' = pos_error flt \<and> vel_error flt' = vel_error flt"
  using assms by (auto simp: UpdateTrackedObjects_def split: option.splits sum.splits)

lemma correct_phase_fields:
  assumes "correct_phase flt = Inr flt'"
  shows "F flt' = F flt \<and> H flt' = H flt \<and> Q flt' = Q flt \<and> R flt' = R flt
       \<and> parameters flt' = parameters flt \<and> data_dir flt' = data_dir flt
       \<and> InitializeObject flt' = InitializeObject flt
       \<and> pos_error flt' = pos_error flt \<and> vel_error flt' = vel_error flt"
  using assms by (auto simp: correct_phase_def split: sum.splits)

lemma Estimate_fields:
  assumes "Estimate flt frame = Inr flt'"
  shows "F flt' = F flt \<and> H flt' = H flt \<and> Q flt' = Q flt \<and> R flt' = R flt
       \<and> parameters flt' = parameters flt \<and> data_dir flt' = data_dir flt
       \<and> InitializeObject flt' = InitializeObject flt
       \<and> pos_error flt' = pos_error flt \<and> vel_error flt' = vel_error flt"
proof -
  from assms obtain flt1 where u: "UpdateTrackedObjects (predict_phase flt) frame = Inr flt1"
    and c: "correct_phase flt1 = Inr flt'"
    by (auto simp: Estimate_def split: sum.splits)
  show ?thesis
    using UpdateTrackedObjects_fields [OF u] correct_phase_fields [OF c]
    by (simp add: predict_phase_fields)
qed

lemma ComputeError_fields:
  assumes "ComputeError flt = Inr flt'"
  shows "F flt' = F flt \<and> H flt' = H flt \<and> Q flt' = Q flt \<and> R flt' = R flt
       \<and> parameters flt' = parameters flt \<and> data_dir flt' = data_dir flt
       \<and> InitializeObject flt' = InitializeObject flt \<and> state flt' = state flt"
  using assms by (auto simp: ComputeError_def Let_def split: sum.splits if_splits)

lemma run_frames_fields:
  "run_frames log_freq fs flt = Inr flt' \<Longrightarrow>
   F flt' = F flt \<and> H flt' = H flt \<and> Q flt' = Q flt \<and> R flt' = R flt
   \<and> parameters flt' = parameters flt \<and> data_dir flt' = data_dir flt
   \<and> InitializeObject flt' = InitializeObject flt"
proof (induction fs arbitrary: flt)
  case Nil
  then show ?case by simp
next
  case (Cons f fs)
  from Cons.prems obtain flt1 flt2 where e: "Estimate flt f = Inr flt1"
    and c: "ComputeError flt1 = Inr flt2" and r: "run_frames log_freq fs flt2 = Inr flt'"
    by (auto split: if_splits sum.splits)
  show ?case
    using Estimate_fields [OF e] ComputeError_fields [OF c] Cons.IH [OF r] by simp
qed

lemma KalmanFilterBasic_init_InrD:
  assumes "KalmanFilterBasic_init dir ps ini = Inr flt0"
  obtains dt pos_sigma a_sigma where "ps ''dt'' = Some dt" and "ps ''pos_sigma'' = Some pos_sigma"
    and "ps ''a_sigma'' = Some a_sigma"
    and "flt0 = \<lparr>data_dir = dir, parameters = ps, pos_error = [], vel_error = [], state = [],
           F = model_F dt, H = model_H, Q = model_Q dt a_sigma, R = model_R pos_sigma,
           InitializeObject = ini\<rparr>"
  using assms
  by (auto simp: KalmanFilterBasic_init_def getparam_def split: option.splits sum.splits)

lemma SimpleRandomInitializer_no_v_mean:
  assumes "ps ''pos_sigma'' \<noteq> None" and "ps ''a_sigma'' \<noteq> None" and "ps ''v_mean'' = None"
  shows "SimpleRandomInitializer ps pos = Inl (KeyError (KStr ''v_mean''))"
  using assms by (auto simp: SimpleRandomInitializer_def getparam_def Let_def)

subsection \<open>The keys of the tracked set stay distinct\<close>

lemma distinct_setitem: "distinct (keys d) \<Longrightarrow> distinct (keys (setitem k v d))"
  by (simp add: keys_def setitem_def distinct_update)

lemma distinct_keys_stop_tracking:
  "distinct (keys st) \<Longrightarrow> stop_tracking input ks st = Inr st' \<Longrightarrow> distinct (keys st')"
proof (induction ks arbitrary: st)
  case Nil
  then show ?case by simp
next
  case (Cons k ks)
  show ?case
  proof (cases "contains k input")
    case True
    then show ?thesis using Cons by simp
  next
    case False
    then have "stop_tracking input ks (AList.delete k st) = Inr st'"
      using Cons.prems by (auto simp: delitem_def split: if_splits)
    then show ?thesis
      using Cons.IH distinct_delete_keys [OF Cons.prems(1)] by blast
  qed
qed

lemma distinct_keys_update_observed:
  "distinct (keys st) \<Longrightarrow> update_observed flt items st = Inr st' \<Longrightarrow> distinct (keys st')"
proof (induction items arbitrary: st)
  case Nil
  then show ?case by simp
next
  case (Cons a items)
  obtain k r where a: "a = (k, r)" by (cases a)
  show ?case
  proof (cases "contains k st")
    case True
    then have "update_observed flt items
        (on_item k (SetTrueState (fst r) (fst (snd r))) (on_item k (SetObservation (snd (snd r))) st))
        = Inr st'"
      using Cons.prems a by simp
    moreover have "distinct (keys
        (on_item k (SetTrueState (fst r) (fst (snd r))) (on_item k (SetObservation (snd (snd r))) st)))"
      using Cons.prems(1) by (simp add: keys_on_item)
    ultimately show ?thesis by (rule Cons.IH [rotated])
  next
    case False
    then obtain obj0 where
      "update_observed flt items
        (on_item k (SetTrueState (fst r) (fst (snd r))) (setitem k (MarkDone obj0) st)) = Inr st'"
      using Cons.prems a by (auto split: sum.splits)
    moreover have "distinct (keys
        (on_item k (SetTrueState (fst r) (fst (snd r))) (setitem k (MarkDone obj0) st)))"
      using distinct_setitem [OF Cons.prems(1)] by (simp add: keys_on_item)
    ultimately show ?thesis by (rule Cons.IH [rotated])
  qed
qed

lemma distinct_keys_Estimate:
  assumes "distinct (keys (state flt))" and "Estimate flt frame = Inr flt'"
  shows "distinct (keys (state flt'))"
proof -
  from assms(2) obtain flt1 where upd: "UpdateTrackedObjects (predict_phase flt) frame = Inr flt1"
    and cor: "correct_loop flt1 (state flt1) = Inr (state flt')"
    by (rule Estimate_InrD)
  from upd obtain input st where
    stop: "stop_tracking input (keys (state (predict_phase flt))) (state (predict_phase flt)) = Inr st"
    and obs: "update_observed (predict_phase flt) input st = Inr (state flt1)"
    by (rule UpdateTrackedObjects_InrD)
  have "distinct (keys (state (predict_phase flt)))"
    using assms(1) by (simp add: keys_predict_phase)
  then have "distinct (keys st)" using stop by (rule distinct_keys_stop_tracking)
  then have "distinct (keys (state flt1))" using obs by (rule distinct_keys_update_observed)
  then show ?thesis using correct_loop_keys [OF cor] by simp
qed

lemma distinct_keys_run_frames:
  "distinct (keys (state flt)) \<Longrightarrow> run_frames log_freq fs flt = Inr flt' \<Longrightarrow>
   distinct (keys (state flt'))"
proof (induction fs arbitrary: flt)
  case Nil
  then show ?case by simp
next
  case (Cons f fs)
  from Cons.prems(2) obtain flt1 flt2 where e: "Estimate flt f = Inr flt1"
    and c: "ComputeError flt1 = Inr flt2" and r: "run_frames log_freq fs flt2 = Inr flt'"
    by (auto split: if_splits sum.splits)
  have "distinct (keys (state flt2))"
    using distinct_keys_Estimate [OF Cons.prems(1) e] ComputeError_fields [OF c] by simp
  then show ?case using r by (rule Cons.IH)
qed

lemma distinct_keys_reached:
  assumes "KalmanFilterBasic_init dir ps ini = Inr flt0"
    and "run_frames log_freq fs flt0 = Inr flt"
  shows "distinct (keys (state flt))"
proof -
  from assms(1) have "state flt0 = []"
    by (auto elim: KalmanFilterBasic_init_InrD)
  then have "distinct (keys (state flt0))" by (simp add: keys_def)
  then show ?thesis using assms(2) by (rule distinct_keys_run_frames)
qed

subsection \<open>The run of three frames\<close>

lemma demo_built:
  "KalmanFilterBasic_init demo_dir fixture_params SimpleRandomInitializer = Inr demo0"
  by (simp add: KalmanFilterBasic_init_def demo0_def fixture_params_def getparam_def)

lemma demo_frame0: "run_frames 1 [0] demo0 = Inr demo1"
  by (simp add: demo_defs estimate_defs initializer_defs object_defs dict_defs array_defs
      ComputeError_def np_power2_def Let_def)

lemma demo_refresh1: "UpdateTrackedObjects (predict_phase demo1) 1 = Inr demo1_pending"
  by (simp add: demo_defs estimate_defs initializer_defs object_defs dict_defs array_defs
      Let_def)

lemma demo_correct1: "correct_phase demo1_pending = Inr demo2"
  by (simp add: demo_defs estimate_defs object_defs array_defs Let_def)

lemma demo_estimate1: "Estimate demo1 1 = Inr demo2"
  using demo_refresh1 demo_correct1 by (simp add: Estimate_def)

section \<open>The covariance updates\<close>



















section \<open>The shapes of the tracked objects\<close>













section \<open>The covariance updates on doubles\<close>

text \<open>
  With the identity for the rounding, the rounded operations are the exact ones, so the
  covariance updates on doubles and the exact ones of \<open>predict_object\<close> and
  \<open>correct_object\<close> are the same code.
\<close>

lemma foldl_plus: "foldl (\<lambda>s p. s + p) a xs = a + sum_list xs" for a :: real
  by (induction xs arbitrary: a) simp_all

lemma dot_rnd_id: "dot_rnd (\<lambda>x. x) u v = dot u v"
  by (simp add: dot_rnd_def dot_def foldl_plus)

lemma matmul_rnd_id: "matmul_rnd (\<lambda>x. x) A B = np_matmul A B"
  by (simp add: matmul_rnd_def np_matmul_def dot_rnd_id)

lemma mat_add_rnd_id: "mat_add_rnd (\<lambda>x. x) A B = mat_add A B"
  by (simp add: mat_add_rnd_def mat_add_def vec_add_def)

lemma mat_sub_rnd_id: "mat_sub_rnd (\<lambda>x. x) A B = mat_sub A B"
  by (simp add: mat_sub_rnd_def mat_sub_def vec_sub_def)

lemma scale_rnd_id:
  "mat_times_rnd (\<lambda>x. x) A c = mat_times A c"
  "mat_div_rnd (\<lambda>x. x) A c = mat_div A c"
  "times_mat_rnd (\<lambda>x. x) c A = times_mat c A"
  by (simp_all add: mat_times_rnd_def mat_times_def mat_div_rnd_def mat_div_def
      times_mat_rnd_def times_mat_def)

lemmas rnd_id = dot_rnd_id matmul_rnd_id mat_add_rnd_id mat_sub_rnd_id scale_rnd_id

lemma model_rnd_id:
  "model_F_rnd (\<lambda>x. x) dt = model_F dt"
  "model_Q_rnd (\<lambda>x. x) dt a = model_Q dt a"
  "model_R_rnd (\<lambda>x. x) p = model_R p"
  "init_cov_rnd (\<lambda>x. x) p a = init_cov p a"
  by (simp_all add: model_F_rnd_def model_F_def model_Q_rnd_def model_Q_def model_G_rnd_def
      model_G_def model_R_rnd_def model_R_def init_cov_rnd_def init_cov_def rnd_id)

lemma predict_cov_rnd_id:
  "predict_cov_rnd (\<lambda>x. x) Fm Qm P = mat_add (np_matmul (np_matmul Fm P) (np_transpose Fm)) Qm"
  by (simp add: predict_cov_rnd_def rnd_id)

lemma linalg_inv_rnd_id_2x2:
  "linalg_inv_rnd (\<lambda>x. x) [[a, b], [c, d]] = np_linalg_inv [[a, b], [c, d]]"
proof (cases "\<bar>a\<bar> < \<bar>c\<bar>")
  case swap: True
  then have c: "c \<noteq> 0" by auto
  show ?thesis
  proof (cases "a * d - b * c = 0")
    case True
    then have "b * c = a * d" by simp
    then show ?thesis using swap c by (simp add: Let_def field_simps)
  next
    case False
    then have "b * c \<noteq> a * d" "a * d \<noteq> b * c" by auto
    then show ?thesis
      using swap c by (simp add: Let_def lu_solve_def np_transpose_2x2 field_simps)
  qed
next
  case noswap: False
  show ?thesis
  proof (cases "a = 0")
    case True
    then have "c = 0" using noswap by simp
    then show ?thesis using True by (simp add: Let_def)
  next
    case a: False
    show ?thesis
    proof (cases "a * d - b * c = 0")
      case True
      then have "b * c = a * d" by simp
      then show ?thesis using noswap a by (simp add: Let_def field_simps)
    next
      case False
      then have "b * c \<noteq> a * d" "a * d \<noteq> b * c" by auto
      then show ?thesis
        using noswap a by (simp add: Let_def lu_solve_def np_transpose_2x2 field_simps)
    qed
  qed
qed

lemma linalg_inv_rnd_id: "linalg_inv_rnd (\<lambda>x. x) S = np_linalg_inv S"
  by (cases S rule: np_linalg_inv.cases) (simp_all only: linalg_inv_rnd_id_2x2, simp_all)

lemma correct_cov_rnd_id:
  "correct_cov_rnd (\<lambda>x. x) Hm Rm P =
     (case np_linalg_inv (mat_add (np_matmul (np_matmul Hm P) (np_transpose Hm)) Rm) of
        Inl e \<Rightarrow> Inl e
      | Inr Sinv \<Rightarrow>
          Inr (np_matmul
                 (mat_sub (np_eye (length P))
                    (np_matmul (np_matmul (np_matmul P (np_transpose Hm)) Sinv) Hm)) P))"
  by (simp add: correct_cov_rnd_def rnd_id linalg_inv_rnd_id Let_def np_matmul_def
      split: sum.splits)
lemma predict_object_cov:
  "x_cov (predict_object flt s) = predict_cov_rnd (\<lambda>x. x) (F flt) (Q flt) (x_cov s)"
  by (simp add: predict_object_def predict_cov_rnd_id object_defs Let_def)

lemma correct_object_cov:
  assumes "\<not> IsDone s"
  shows "correct_cov_rnd (\<lambda>x. x) (H flt) (R flt) (x_cov s)
         = (case correct_object flt s of Inl e \<Rightarrow> Inl e | Inr s' \<Rightarrow> Inr (x_cov s'))"
  using assms
  by (simp add: correct_object_def correct_cov_rnd_def rnd_id linalg_inv_rnd_id innovation_cov_def
      gain_def object_defs Let_def split: sum.splits)















section \<open>The correction phase\<close>

text \<open>
  Claim C1. After a correction phase that returns, every tracked object that was not done
  has the estimated state \<open>x_pred + K y\<close> and the covariance \<open>(I - K H) x_cov\<close>, with
  the innovation \<open>y = x_obs - H x_pred\<close>, its covariance \<open>S = H x_cov H\<^sup>T + R\<close>, the
  inverse \<open>Sinv\<close> of \<open>S\<close> (a two-sided inverse: \<open>S Sinv = Sinv S = I\<close>) and the gain
  \<open>K = x_cov H\<^sup>T Sinv\<close>; it is marked done and no other field of it has changed. An
  object that was done already is the same object afterwards. The phase returns when the
  innovation covariance of every object not yet done is invertible.
\<close>

theorem C1_correction_phase:
  assumes "map_of (state flt) k = Some s"
  shows "(\<forall>flt'. correct_phase flt = Inr flt' \<longrightarrow>
           (\<exists>s'. map_of (state flt') k = Some s' \<and>
              (IsDone s \<longrightarrow> s' = s) \<and>
              (\<not> IsDone s \<longrightarrow>
                 (\<exists>y S Sinv K.
                     y = vec_sub (x_obs s) (np_matmul_vec (H flt) (x_pred s))
                   \<and> S = mat_add (np_matmul (np_matmul (H flt) (x_cov s)) (np_transpose (H flt)))
                                 (R flt)
                   \<and> np_linalg_inv S = Inr Sinv
                   \<and> np_matmul S Sinv = np_eye 2 \<and> np_matmul Sinv S = np_eye 2
                   \<and> K = np_matmul (np_matmul (x_cov s) (np_transpose (H flt))) Sinv
                   \<and> s' = s\<lparr>x_est := vec_add (x_pred s) (np_matmul_vec K y),
                            x_cov := np_matmul (mat_sub (np_eye (length (x_cov s)))
                                                  (np_matmul K (H flt))) (x_cov s),
                            done_flag := True\<rparr>))))
       \<and> (list_all (\<lambda>(k, s). IsDone s \<or> isl (np_linalg_inv (innovation_cov flt (x_cov s))) = False)
             (state flt)
            \<longrightarrow> isl (correct_phase flt) = False)"
proof (intro conjI allI impI)
  fix flt'
  assume cp: "correct_phase flt = Inr flt'"
  from correct_loop_map_of [OF correct_phase_InrD(1) [OF cp] assms]
  obtain s' where co: "correct_object flt s = Inr s'" and look: "map_of (state flt') k = Some s'"
    by blast
  have done_case: "IsDone s \<longrightarrow> s' = s"
    using co by (auto simp: correct_object_done)
  have open_case: "\<exists>y S Sinv K.
         y = vec_sub (x_obs s) (np_matmul_vec (H flt) (x_pred s))
       \<and> S = mat_add (np_matmul (np_matmul (H flt) (x_cov s)) (np_transpose (H flt))) (R flt)
       \<and> np_linalg_inv S = Inr Sinv
       \<and> np_matmul S Sinv = np_eye 2 \<and> np_matmul Sinv S = np_eye 2
       \<and> K = np_matmul (np_matmul (x_cov s) (np_transpose (H flt))) Sinv
       \<and> s' = s\<lparr>x_est := vec_add (x_pred s) (np_matmul_vec K y),
                x_cov := np_matmul (mat_sub (np_eye (length (x_cov s))) (np_matmul K (H flt)))
                           (x_cov s),
                done_flag := True\<rparr>"
    if nd: "\<not> IsDone s"
  proof -
    from co nd obtain Sinv where
      inv: "np_linalg_inv (innovation_cov flt (GetStateCov s)) = Inr Sinv"
      and s': "s' = MarkDone (SetStateCov
              (np_matmul (mat_sub (np_eye (length (GetStateCov s)))
                            (np_matmul (gain flt (GetStateCov s) Sinv) (H flt)))
                 (GetStateCov s))
              (SetEstimatedState
                 (vec_add (GetPredictedState s)
                    (np_matmul_vec (gain flt (GetStateCov s) Sinv) (innovation flt s))) s))"
      by (rule correct_object_InrD)
    from np_linalg_inv_correct [OF inv] inv s' show ?thesis
      by (simp add: innovation_cov_def innovation_def gain_def object_defs)
  qed
  show "\<exists>s'. map_of (state flt') k = Some s' \<and> (IsDone s \<longrightarrow> s' = s) \<and>
          (\<not> IsDone s \<longrightarrow>
             (\<exists>y S Sinv K.
                 y = vec_sub (x_obs s) (np_matmul_vec (H flt) (x_pred s))
               \<and> S = mat_add (np_matmul (np_matmul (H flt) (x_cov s)) (np_transpose (H flt)))
                             (R flt)
               \<and> np_linalg_inv S = Inr Sinv
               \<and> np_matmul S Sinv = np_eye 2 \<and> np_matmul Sinv S = np_eye 2
               \<and> K = np_matmul (np_matmul (x_cov s) (np_transpose (H flt))) Sinv
               \<and> s' = s\<lparr>x_est := vec_add (x_pred s) (np_matmul_vec K y),
                        x_cov := np_matmul (mat_sub (np_eye (length (x_cov s)))
                                              (np_matmul K (H flt))) (x_cov s),
                        done_flag := True\<rparr>))"
    using look done_case open_case by blast
next
  assume all: "list_all (\<lambda>(k, s). IsDone s \<or> isl (np_linalg_inv (innovation_cov flt (x_cov s))) = False)
             (state flt)"
  have "\<exists>s'. correct_object flt s = Inr s'" if "(k, s) \<in> set (state flt)" for k s
  proof (cases "IsDone s")
    case True
    then show ?thesis by (simp add: correct_object_done)
  next
    case False
    then have "isl (np_linalg_inv (innovation_cov flt (x_cov s))) = False"
      using all that by (auto simp: list_all_iff)
    then obtain Sinv where "np_linalg_inv (innovation_cov flt (x_cov s)) = Inr Sinv"
      by (cases "np_linalg_inv (innovation_cov flt (x_cov s))") auto
    then show ?thesis using False by (simp add: correct_object_def Let_def GetStateCov_def)
  qed
  then obtain st' where "correct_loop flt (state flt) = Inr st'"
    using correct_loop_total [of "state flt" flt] by blast
  then show "isl (correct_phase flt) = False" by (simp add: correct_phase_def)
qed

theorem C1_witness:
  "map_of (state demo1_pending) 2 = Some demo_object2_pending
   \<and> IsDone demo_object2_pending = False
   \<and> map_of (state demo1_pending) 3 = Some demo_object3
   \<and> IsDone demo_object3
   \<and> correct_phase demo1_pending = Inr demo2
   \<and> map_of (state demo2) 3 = Some demo_object3
   \<and> (\<exists>y S Sinv K.
          y = vec_sub (x_obs demo_object2_pending)
                (np_matmul_vec (H demo1_pending) (x_pred demo_object2_pending))
        \<and> S = mat_add (np_matmul (np_matmul (H demo1_pending) (x_cov demo_object2_pending))
                         (np_transpose (H demo1_pending))) (R demo1_pending)
        \<and> np_linalg_inv S = Inr Sinv
        \<and> np_matmul S Sinv = np_eye 2 \<and> np_matmul Sinv S = np_eye 2
        \<and> K = np_matmul (np_matmul (x_cov demo_object2_pending)
                            (np_transpose (H demo1_pending))) Sinv
        \<and> map_of (state demo2) 2 =
            Some (demo_object2_pending
                    \<lparr>x_est := vec_add (x_pred demo_object2_pending) (np_matmul_vec K y),
                     x_cov := np_matmul (mat_sub (np_eye (length (x_cov demo_object2_pending)))
                                           (np_matmul K (H demo1_pending)))
                                (x_cov demo_object2_pending),
                     done_flag := True\<rparr>))
   \<and> isl (correct_phase demo1_pending) = False"
proof -
  have t2: "map_of (state demo1_pending) 2 = Some demo_object2_pending"
    and t3: "map_of (state demo1_pending) 3 = Some demo_object3"
    by (simp_all add: demo1_pending_def)
  have d2: "IsDone demo_object2_pending = False" and d3: "IsDone demo_object3"
    by (simp_all add: IsDone_def demo_object2_pending_def demo_object3_def)
  have inv: "list_all (\<lambda>(k, s). IsDone s
      \<or> isl (np_linalg_inv (innovation_cov demo1_pending (x_cov s))) = False)
      (state demo1_pending)"
    by (simp add: demo_defs IsDone_def innovation_cov_def model_H_eq model_R_eq array_defs)
  note returns = C1_correction_phase [OF t2, THEN conjunct2, rule_format, OF inv]
  from C1_correction_phase [OF t3, THEN conjunct1, rule_format, OF demo_correct1]
  obtain s3 where "map_of (state demo2) 3 = Some s3"
    and "IsDone demo_object3 \<longrightarrow> s3 = demo_object3"
    by blast
  then have k3: "map_of (state demo2) 3 = Some demo_object3" using d3 by simp
  from C1_correction_phase [OF t2, THEN conjunct1, rule_format, OF demo_correct1]
  obtain s2 where s2: "map_of (state demo2) 2 = Some s2"
    and open_case: "\<not> IsDone demo_object2_pending \<longrightarrow>
       (\<exists>y S Sinv K.
          y = vec_sub (x_obs demo_object2_pending)
                (np_matmul_vec (H demo1_pending) (x_pred demo_object2_pending))
        \<and> S = mat_add (np_matmul (np_matmul (H demo1_pending) (x_cov demo_object2_pending))
                         (np_transpose (H demo1_pending))) (R demo1_pending)
        \<and> np_linalg_inv S = Inr Sinv
        \<and> np_matmul S Sinv = np_eye 2 \<and> np_matmul Sinv S = np_eye 2
        \<and> K = np_matmul (np_matmul (x_cov demo_object2_pending)
                            (np_transpose (H demo1_pending))) Sinv
        \<and> s2 = demo_object2_pending
                    \<lparr>x_est := vec_add (x_pred demo_object2_pending) (np_matmul_vec K y),
                     x_cov := np_matmul (mat_sub (np_eye (length (x_cov demo_object2_pending)))
                                           (np_matmul K (H demo1_pending)))
                                (x_cov demo_object2_pending),
                     done_flag := True\<rparr>)"
    by blast
  from open_case d2 s2 have k2: "\<exists>y S Sinv K.
          y = vec_sub (x_obs demo_object2_pending)
                (np_matmul_vec (H demo1_pending) (x_pred demo_object2_pending))
        \<and> S = mat_add (np_matmul (np_matmul (H demo1_pending) (x_cov demo_object2_pending))
                         (np_transpose (H demo1_pending))) (R demo1_pending)
        \<and> np_linalg_inv S = Inr Sinv
        \<and> np_matmul S Sinv = np_eye 2 \<and> np_matmul Sinv S = np_eye 2
        \<and> K = np_matmul (np_matmul (x_cov demo_object2_pending)
                            (np_transpose (H demo1_pending))) Sinv
        \<and> map_of (state demo2) 2 =
            Some (demo_object2_pending
                    \<lparr>x_est := vec_add (x_pred demo_object2_pending) (np_matmul_vec K y),
                     x_cov := np_matmul (mat_sub (np_eye (length (x_cov demo_object2_pending)))
                                           (np_matmul K (H demo1_pending)))
                                (x_cov demo_object2_pending),
                     done_flag := True\<rparr>)"
    by simp
  show ?thesis
    using t2 d2 t3 d3 demo_correct1 k3 k2 returns by (intro conjI)
qed

section \<open>The predict phase\<close>

text \<open>
  Claim C2. In a filter reached from the constructor by a run of frames, \<open>F\<close> and \<open>Q\<close>
  are the matrices that the constructor built from \<^verbatim>\<open>dt\<close> and \<^verbatim>\<open>a_sigma\<close>. The predict
  phase gives every tracked object the predicted state \<open>F x_est\<close> and the covariance
  \<open>F x_cov F\<^sup>T + Q\<close> and resets its done flag; the other fields of the object, the keys
  of the tracked set and the other fields of the filter stay as they are. The phase is a
  total function with no error result.
\<close>

theorem C2_predict_phase:
  assumes built: "KalmanFilterBasic_init dir ps ini = Inr flt0"
    and reached: "run_frames log_freq fs flt0 = Inr flt"
    and tracked: "map_of (state flt) k = Some s"
  shows "\<exists>dt a s'.
         ps ''dt'' = Some dt \<and> ps ''a_sigma'' = Some a
       \<and> F flt = [[1, 0, dt, 0], [0, 1, 0, dt], [0, 0, 1, 0], [0, 0, 0, 1]]
       \<and> Q flt = [[a\<^sup>2 * dt ^ 4 / 4, 0, a\<^sup>2 * dt ^ 3 / 2, 0],
                  [0, a\<^sup>2 * dt ^ 4 / 4, 0, a\<^sup>2 * dt ^ 3 / 2],
                  [a\<^sup>2 * dt ^ 3 / 2, 0, a\<^sup>2 * dt\<^sup>2, 0],
                  [0, a\<^sup>2 * dt ^ 3 / 2, 0, a\<^sup>2 * dt\<^sup>2]]
       \<and> map_of (state (predict_phase flt)) k = Some s'
       \<and> s' = s\<lparr>x_pred := np_matmul_vec (F flt) (x_est s),
                x_cov := mat_add (np_matmul (np_matmul (F flt) (x_cov s)) (np_transpose (F flt)))
                           (Q flt),
                done_flag := False\<rparr>
       \<and> keys (state (predict_phase flt)) = keys (state flt)
       \<and> predict_phase flt = flt\<lparr>state := state (predict_phase flt)\<rparr>"
proof -
  from built obtain dt pos_sigma a_sigma where dt: "ps ''dt'' = Some dt"
    and a: "ps ''a_sigma'' = Some a_sigma"
    and flt0: "flt0 = \<lparr>data_dir = dir, parameters = ps, pos_error = [], vel_error = [], state = [],
           F = model_F dt, H = model_H, Q = model_Q dt a_sigma, R = model_R pos_sigma,
           InitializeObject = ini\<rparr>"
    by (rule KalmanFilterBasic_init_InrD)
  have "F flt = model_F dt" and "Q flt = model_Q dt a_sigma"
    using run_frames_fields [OF reached] by (simp_all add: flt0)
  then have FQ: "F flt = [[1, 0, dt, 0], [0, 1, 0, dt], [0, 0, 1, 0], [0, 0, 0, 1]]"
    "Q flt = [[a_sigma\<^sup>2 * dt ^ 4 / 4, 0, a_sigma\<^sup>2 * dt ^ 3 / 2, 0],
                  [0, a_sigma\<^sup>2 * dt ^ 4 / 4, 0, a_sigma\<^sup>2 * dt ^ 3 / 2],
                  [a_sigma\<^sup>2 * dt ^ 3 / 2, 0, a_sigma\<^sup>2 * dt\<^sup>2, 0],
                  [0, a_sigma\<^sup>2 * dt ^ 3 / 2, 0, a_sigma\<^sup>2 * dt\<^sup>2]]"
    by (simp_all only: model_F_eq model_Q_explicit)
  have obj: "map_of (state (predict_phase flt)) k =
      Some (s\<lparr>x_pred := np_matmul_vec (F flt) (x_est s),
              x_cov := mat_add (np_matmul (np_matmul (F flt) (x_cov s)) (np_transpose (F flt)))
                         (Q flt),
              done_flag := False\<rparr>)"
    using tracked by (simp add: map_of_predict_phase predict_object_def object_defs Let_def)
  have "predict_phase flt = flt\<lparr>state := state (predict_phase flt)\<rparr>"
    by (simp add: predict_phase_def)
  then show ?thesis using dt a FQ obj keys_predict_phase by blast
qed

theorem C2_witness:
  "KalmanFilterBasic_init demo_dir fixture_params SimpleRandomInitializer = Inr demo0
   \<and> run_frames 1 [0] demo0 = Inr demo1
   \<and> map_of (state demo1) 2 = Some demo_object2
   \<and> fixture_params ''dt'' = Some 1 \<and> fixture_params ''a_sigma'' = Some (1 / 10)
   \<and> F demo1 = [[1, 0, 1, 0], [0, 1, 0, 1], [0, 0, 1, 0], [0, 0, 0, 1]]
   \<and> Q demo1 = [[1 / 400, 0, 1 / 200, 0], [0, 1 / 400, 0, 1 / 200],
                 [1 / 200, 0, 1 / 100, 0], [0, 1 / 200, 0, 1 / 100]]
   \<and> map_of (state (predict_phase demo1)) 2 =
       Some (demo_object2\<lparr>x_pred := [2, 1 / 2, 1, 0],
                          x_cov := [[81 / 80, 0, 3 / 200, 0], [0, 81 / 80, 0, 3 / 200],
                                    [3 / 200, 0, 1 / 50, 0], [0, 3 / 200, 0, 1 / 50]],
                          done_flag := False\<rparr>)
   \<and> keys (state (predict_phase demo1)) = [1, 2]
   \<and> predict_phase demo1 = demo1\<lparr>state := state (predict_phase demo1)\<rparr>"
proof -
  have t: "map_of (state demo1) 2 = Some demo_object2"
    by (simp add: demo1_def)
  from C2_predict_phase [OF demo_built demo_frame0 t]
  obtain dt a s' where dt: "fixture_params ''dt'' = Some dt"
    and a: "fixture_params ''a_sigma'' = Some a"
    and FQ: "F demo1 = [[1, 0, dt, 0], [0, 1, 0, dt], [0, 0, 1, 0], [0, 0, 0, 1]]"
      "Q demo1 = [[a\<^sup>2 * dt ^ 4 / 4, 0, a\<^sup>2 * dt ^ 3 / 2, 0],
                  [0, a\<^sup>2 * dt ^ 4 / 4, 0, a\<^sup>2 * dt ^ 3 / 2],
                  [a\<^sup>2 * dt ^ 3 / 2, 0, a\<^sup>2 * dt\<^sup>2, 0],
                  [0, a\<^sup>2 * dt ^ 3 / 2, 0, a\<^sup>2 * dt\<^sup>2]]"
    and look: "map_of (state (predict_phase demo1)) 2 = Some s'"
    and s': "s' = demo_object2\<lparr>x_pred := np_matmul_vec (F demo1) (x_est demo_object2),
                x_cov := mat_add (np_matmul (np_matmul (F demo1) (x_cov demo_object2))
                                    (np_transpose (F demo1))) (Q demo1),
                done_flag := False\<rparr>"
    and ks: "keys (state (predict_phase demo1)) = keys (state demo1)"
    and rest: "predict_phase demo1 = demo1\<lparr>state := state (predict_phase demo1)\<rparr>"
    by blast
  have dt1: "dt = 1" and a1: "a = 1 / 10"
    using dt a by (simp_all add: fixture_params_def)
  have F1: "F demo1 = [[1, 0, 1, 0], [0, 1, 0, 1], [0, 0, 1, 0], [0, 0, 0, 1]]"
    using FQ(1) dt1 by simp
  have Q1: "Q demo1 = [[1 / 400, 0, 1 / 200, 0], [0, 1 / 400, 0, 1 / 200],
                 [1 / 200, 0, 1 / 100, 0], [0, 1 / 200, 0, 1 / 100]]"
    using FQ(2) dt1 a1 by (simp add: power2_eq_square)
  have "s' = demo_object2\<lparr>x_pred := [2, 1 / 2, 1, 0],
                          x_cov := [[81 / 80, 0, 3 / 200, 0], [0, 81 / 80, 0, 3 / 200],
                                    [3 / 200, 0, 1 / 50, 0], [0, 3 / 200, 0, 1 / 50]],
                          done_flag := False\<rparr>"
    unfolding s' F1 Q1 by (simp add: demo_object2_def array_defs)
  moreover have "keys (state demo1) = [1, 2]"
    by (simp add: demo1_def keys_def)
  ultimately show ?thesis
    using demo_built demo_frame0 t dt a dt1 a1 F1 Q1 look ks rest by simp
qed

section \<open>Zero innovation\<close>

text \<open>
  Claim C3. When the observed position of an object that is not done equals \<open>H x_pred\<close>
  and the correction phase returns (so the innovation covariance was invertible), the
  estimated state of the object after the phase is its predicted state. Nothing is
  assumed of the entries of the covariance, of \<open>Q\<close> or of \<open>R\<close>; the covariance has as many
  rows as the predicted state has entries, and \<open>H\<close> has two rows.
\<close>

theorem C3_zero_innovation:
  assumes corrected: "correct_phase flt = Inr flt'"
    and tracked: "map_of (state flt) k = Some s"
    and unresolved: "\<not> IsDone s"
    and two_rows: "length (H flt) = 2"
    and shape: "length (GetStateCov s) = length (GetPredictedState s)"
    and zero: "GetObservation s = np_matmul_vec (H flt) (GetPredictedState s)"
  shows "\<exists>s'. map_of (state flt') k = Some s'
           \<and> GetEstimatedState s' = GetPredictedState s
           \<and> GetPredictedState s' = GetPredictedState s"
proof -
  from correct_loop_map_of [OF correct_phase_InrD(1) [OF corrected] tracked]
  obtain s' where co: "correct_object flt s = Inr s'" and look: "map_of (state flt') k = Some s'"
    by blast
  from co unresolved obtain Sinv where
    s': "s' = MarkDone (SetStateCov
              (np_matmul (mat_sub (np_eye (length (GetStateCov s)))
                            (np_matmul (gain flt (GetStateCov s) Sinv) (H flt)))
                 (GetStateCov s))
              (SetEstimatedState
                 (vec_add (GetPredictedState s)
                    (np_matmul_vec (gain flt (GetStateCov s) Sinv) (innovation flt s))) s))"
    by (rule correct_object_InrD)
  have "innovation flt s = [0, 0]"
    using zero two_rows
    by (simp add: innovation_def vec_sub_self length_np_matmul_vec eval_nat_numeral)
  then have "np_matmul_vec (gain flt (GetStateCov s) Sinv) (innovation flt s)
      = replicate (length (GetStateCov s)) 0"
    by (simp add: np_matmul_vec_zeros2 gain_def length_np_matmul)
  then have "vec_add (GetPredictedState s)
      (np_matmul_vec (gain flt (GetStateCov s) Sinv) (innovation flt s)) = GetPredictedState s"
    using shape by (simp add: vec_add_zeros)
  then show ?thesis using look s' by (simp add: object_defs)
qed

theorem C3_witness:
  "map_of (state demo1_zero) 2 = Some demo_object2_zero
   \<and> IsDone demo_object2_zero = False
   \<and> length (H demo1_zero) = 2
   \<and> length (GetStateCov demo_object2_zero) = length (GetPredictedState demo_object2_zero)
   \<and> GetObservation demo_object2_zero
       = np_matmul_vec (H demo1_zero) (GetPredictedState demo_object2_zero)
   \<and> isl (correct_phase demo1_zero) = False
   \<and> (\<exists>s'. map_of (state (projr (correct_phase demo1_zero))) 2 = Some s'
          \<and> GetEstimatedState s' = [2, 1 / 2, 1, 0]
          \<and> GetPredictedState s' = [2, 1 / 2, 1, 0])"
proof -
  have t: "map_of (state demo1_zero) 2 = Some demo_object2_zero"
    by (simp add: demo1_zero_def)
  have u: "\<not> IsDone demo_object2_zero"
    by (simp add: IsDone_def demo_object2_zero_def demo_object2_pending_def)
  have h: "length (H demo1_zero) = 2"
    by (simp add: demo1_zero_def demo1_def demo0_def model_H_eq)
  have l: "length (GetStateCov demo_object2_zero) = length (GetPredictedState demo_object2_zero)"
    by (simp add: object_defs demo_object2_zero_def demo_object2_pending_def)
  have z: "GetObservation demo_object2_zero
       = np_matmul_vec (H demo1_zero) (GetPredictedState demo_object2_zero)"
    by (simp add: object_defs demo_object2_zero_def demo_object2_pending_def demo1_zero_def
        demo1_def demo0_def model_H_eq array_defs)
  have c: "correct_phase demo1_zero = Inr (demo1_zero\<lparr>state :=
      [(2, demo_object2_zero\<lparr>x_est := [2, 1 / 2, 1, 0],
             x_cov := [[81 / 161, 0, 6 / 805, 0], [0, 81 / 161, 0, 6 / 805],
               [6 / 805, 0, 1601 / 80500, 0], [0, 6 / 805, 0, 1601 / 80500]],
             done_flag := True\<rparr>)]\<rparr>)"
    by (simp add: demo1_zero_def demo_object2_zero_def demo_defs estimate_defs object_defs
        array_defs Let_def)
  from C3_zero_innovation [OF c t u h l z]
  obtain s' where "map_of (state (projr (correct_phase demo1_zero))) 2 = Some s'"
    and "GetEstimatedState s' = GetPredictedState demo_object2_zero"
    and "GetPredictedState s' = GetPredictedState demo_object2_zero"
    unfolding c by auto
  moreover have "GetPredictedState demo_object2_zero = [2, 1 / 2, 1, 0]"
    by (simp add: object_defs demo_object2_zero_def demo_object2_pending_def)
  ultimately show ?thesis using t u h l z c by auto
qed

section \<open>The initialization fixture\<close>

text \<open>
  Claim C4. With \<open>dt = 1\<close>, \<open>pos_sigma = 1\<close>, \<open>a_sigma = 0.1\<close>, \<open>v_mean = 1\<close> and the
  observed position \<open>(0, 0)\<close>, the initializer computes \<open>delta = 1\<close> and the distance
  vector \<open>[-1, -1, 0, 0]\<close>; the absolute values \<open>[1, 1, 0, 0]\<close> have their minimum at
  the indices 2 and 3, and the first of them, 2, is selected; the velocity is \<open>(-1, 0)\<close>,
  and the object returned has estimated and predicted state \<open>(0, 0, -1, 0)\<close>, observed
  position \<open>(0, 0)\<close>, the block-diagonal covariance of \<open>pos_sigma\<^sup>2\<close> and \<open>a_sigma\<^sup>2\<close>,
  and is already marked done. That the first index of the minimum is selected on every
  input is \<open>np_argmin_first_min\<close>.
\<close>

theorem C4_initialization_fixture:
  "init_delta 1 1 = 1
   \<and> init_mean 1 [0, 0] = [- 1, - 1, 0, 0]
   \<and> np_abs [- 1, - 1, 0, 0] = [1, 1, 0, 0]
   \<and> init_side [- 1, - 1, 0, 0] = 2
   \<and> init_v 1 2 = Inr [- 1, 0]
   \<and> SimpleRandomInitializer fixture_params [0, 0] =
       Inr \<lparr>x_obs = [0, 0], x_est = [0, 0, - 1, 0], x_pred = [0, 0, - 1, 0],
            x_cov = [[1 * 1, 0, 0, 0], [0, 1 * 1, 0, 0],
                     [0, 0, (1 / 10) * (1 / 10), 0], [0, 0, 0, (1 / 10) * (1 / 10)]],
            done_flag = True, x_true = None, v_true = None\<rparr>"
  by (simp add: SimpleRandomInitializer_def fixture_params_def getparam_def init_cov_eq
      init_delta_def init_mean_def init_side_def np_abs_def init_v_def
      KalmanObjectState_init_def Let_def)

section \<open>New objects\<close>

text \<open>
  Claim C5. An identity of the frame's records that is not tracked when \<^verbatim>\<open>Estimate\<close>
  starts gets, in the refresh, the object that the initializer returns for its observed
  position, marked done and with the true state of the record. The correction of that
  object returns it as it is, and at the end of \<^verbatim>\<open>Estimate\<close> the tracked set holds this
  object under the identity: its estimated state is the one the initializer produced.
\<close>

theorem C5_new_object_keeps_initial_state:
  assumes frame: "data_dir flt frame = Some input"
    and dist: "distinct (keys input)"
    and rec: "map_of input k = Some r"
    and new: "\<not> contains k (state flt)"
    and est: "Estimate flt frame = Inr flt'"
  shows "\<exists>obj0 obj flt1.
           InitializeObject flt (parameters flt) (snd (snd r)) = Inr obj0
         \<and> obj = SetTrueState (fst r) (fst (snd r)) (MarkDone obj0)
         \<and> UpdateTrackedObjects (predict_phase flt) frame = Inr flt1
         \<and> map_of (state flt1) k = Some obj \<and> IsDone obj
         \<and> correct_object flt1 obj = Inr obj
         \<and> map_of (state flt') k = Some obj
         \<and> GetEstimatedState obj = GetEstimatedState obj0"
proof -
  from est obtain flt1 where upd: "UpdateTrackedObjects (predict_phase flt) frame = Inr flt1"
    and cor: "correct_loop flt1 (state flt1) = Inr (state flt')"
    by (rule Estimate_InrD)
  from upd obtain input' st where "data_dir (predict_phase flt) frame = Some input'"
    and stop: "stop_tracking input' (keys (state (predict_phase flt))) (state (predict_phase flt)) = Inr st"
    and obs: "update_observed (predict_phase flt) input' st = Inr (state flt1)"
    by (rule UpdateTrackedObjects_InrD)
  then have [simp]: "input' = input" using frame by (simp add: predict_phase_fields)
  have "\<not> contains k st"
    using stop_tracking_keys_subset [OF stop] new
    by (auto simp: contains_def keys_predict_phase)
  from update_observed_new [OF _ _ this, of input r "predict_phase flt" "state flt1"] dist rec obs
  obtain obj0 where init: "InitializeObject flt (parameters flt) (snd (snd r)) = Inr obj0"
    and look: "map_of (state flt1) k = Some (SetTrueState (fst r) (fst (snd r)) (MarkDone obj0))"
    by (auto simp: predict_phase_fields)
  let ?obj = "SetTrueState (fst r) (fst (snd r)) (MarkDone obj0)"
  have isdone: "IsDone ?obj" by (simp add: IsDone_def SetTrueState_def MarkDone_def)
  from correct_loop_map_of [OF cor look]
  have "map_of (state flt') k = Some ?obj" by (simp add: correct_object_done [OF isdone])
  moreover have "GetEstimatedState ?obj = GetEstimatedState obj0"
    by (simp add: GetEstimatedState_def SetTrueState_def MarkDone_def)
  ultimately show ?thesis using init upd look isdone correct_object_done [OF isdone] by blast
qed

theorem C5_witness:
  "data_dir demo1 1 = Some demo_input1
   \<and> distinct (keys demo_input1)
   \<and> map_of demo_input1 3 = Some ([1 / 2, 0], [0, - 1], [1 / 2, 0])
   \<and> contains 3 (state demo1) = False
   \<and> Estimate demo1 1 = Inr demo2
   \<and> InitializeObject demo1 (parameters demo1) [1 / 2, 0] = Inr demo_init3
   \<and> UpdateTrackedObjects (predict_phase demo1) 1 = Inr demo1_pending
   \<and> map_of (state demo1_pending) 3 = Some demo_object3
   \<and> map_of (state demo2) 3 = Some demo_object3
   \<and> GetEstimatedState demo_object3 = GetEstimatedState demo_init3
   \<and> GetEstimatedState demo_init3 = [1 / 2, 0, 0, - 1]"
proof -
  have f: "data_dir demo1 1 = Some demo_input1"
    by (simp add: demo1_def demo0_def demo_dir_def)
  have d: "distinct (keys demo_input1)"
    by (simp add: demo_input1_def keys_def)
  have r: "map_of demo_input1 3 = Some ([1 / 2, 0], [0, - 1], [1 / 2, 0])"
    by (simp add: demo_input1_def)
  have n: "\<not> contains 3 (state demo1)"
    by (simp add: demo1_def contains_def keys_def)
  have i: "InitializeObject demo1 (parameters demo1) [1 / 2, 0] = Inr demo_init3"
    by (simp add: demo_init3_def demo_defs initializer_defs object_defs Let_def)
  from C5_new_object_keeps_initial_state [OF f d r n demo_estimate1] i
  obtain obj where "map_of (state demo2) 3 = Some obj"
    and "obj = SetTrueState [1 / 2, 0] [0, - 1] (MarkDone demo_init3)"
    and "GetEstimatedState obj = GetEstimatedState demo_init3"
    by auto
  moreover have "SetTrueState [1 / 2, 0] [0, - 1] (MarkDone demo_init3) = demo_object3"
    by (simp add: demo_init3_def demo_object3_def object_defs)
  moreover have "map_of (state demo1_pending) 3 = Some demo_object3"
    by (simp add: demo1_pending_def)
  moreover have "GetEstimatedState demo_init3 = [1 / 2, 0, 0, - 1]"
    by (simp add: demo_init3_def demo_object3_def object_defs)
  ultimately show ?thesis using f d r n i demo_estimate1 demo_refresh1 by simp
qed

section \<open>The covariance invariant\<close>




section \<open>Missing parameters\<close>

text \<open>
  Claim C7, as amended. A missing \<^verbatim>\<open>dt\<close>, \<^verbatim>\<open>pos_sigma\<close> or \<^verbatim>\<open>a_sigma\<close> makes the
  constructor raise \<^verbatim>\<open>KeyError\<close> for the first of them that is missing, before any
  frame is processed. A missing \<^verbatim>\<open>v_mean\<close> does not: the constructor returns a filter,
  and \<^verbatim>\<open>KeyError\<close> is raised inside \<^verbatim>\<open>Estimate\<close> of frame 0, when the initializer is
  called for the first record of that frame.
\<close>

theorem C7_missing_parameters:
  "(ps ''dt'' = None \<longrightarrow> KalmanFilterBasic_init dir ps ini = Inl (KeyError (KStr ''dt'')))
 \<and> (ps ''dt'' \<noteq> None \<and> ps ''pos_sigma'' = None \<longrightarrow>
      KalmanFilterBasic_init dir ps ini = Inl (KeyError (KStr ''pos_sigma'')))
 \<and> (ps ''dt'' \<noteq> None \<and> ps ''pos_sigma'' \<noteq> None \<and> ps ''a_sigma'' = None \<longrightarrow>
      KalmanFilterBasic_init dir ps ini = Inl (KeyError (KStr ''a_sigma'')))
 \<and> (ps ''dt'' \<noteq> None \<and> ps ''pos_sigma'' \<noteq> None \<and> ps ''a_sigma'' \<noteq> None
      \<and> ps ''v_mean'' = None \<longrightarrow>
      isl (KalmanFilterBasic_init dir ps SimpleRandomInitializer) = False
    \<and> (\<forall>input. dir 0 = Some input \<and> input \<noteq> [] \<longrightarrow>
          Estimate (projr (KalmanFilterBasic_init dir ps SimpleRandomInitializer)) 0
          = Inl (KeyError (KStr ''v_mean''))))"
proof (intro conjI impI allI)
  assume h: "ps ''dt'' \<noteq> None \<and> ps ''pos_sigma'' \<noteq> None \<and> ps ''a_sigma'' \<noteq> None
      \<and> ps ''v_mean'' = None"
  then obtain dt p a where "ps ''dt'' = Some dt" "ps ''pos_sigma'' = Some p"
    "ps ''a_sigma'' = Some a" by auto
  then have built: "KalmanFilterBasic_init dir ps SimpleRandomInitializer =
      Inr \<lparr>data_dir = dir, parameters = ps, pos_error = [], vel_error = [], state = [],
           F = model_F dt, H = model_H, Q = model_Q dt a, R = model_R p,
           InitializeObject = SimpleRandomInitializer\<rparr>"
    by (simp add: KalmanFilterBasic_init_def getparam_def)
  then show "isl (KalmanFilterBasic_init dir ps SimpleRandomInitializer) = False" by simp
  fix input
  assume "dir 0 = Some input \<and> input \<noteq> []"
  then obtain k r items where input: "dir 0 = Some ((k, r) # items)"
    by (cases input) auto
  show "Estimate (projr (KalmanFilterBasic_init dir ps SimpleRandomInitializer)) 0
          = Inl (KeyError (KStr ''v_mean''))"
    using input SimpleRandomInitializer_no_v_mean [of ps "snd (snd r)"] h
    by (simp add: built Estimate_def predict_phase_def UpdateTrackedObjects_def keys_def
        contains_def)
qed (auto simp: KalmanFilterBasic_init_def getparam_def split: option.splits)

text \<open>
  The claim as stated fails: without \<^verbatim>\<open>v_mean\<close> the constructor succeeds, and the error
  comes from \<^verbatim>\<open>Estimate\<close> of frame 0.
\<close>

theorem C7_counterexample:
  "no_v_mean_params ''v_mean'' = None
   \<and> KalmanFilterBasic_init demo_dir no_v_mean_params SimpleRandomInitializer
       = Inr no_v_mean_filter
   \<and> Estimate no_v_mean_filter 0 = Inl (KeyError (KStr ''v_mean''))"
  by (simp add: no_v_mean_params_def no_v_mean_filter_def KalmanFilterBasic_init_def
      demo_dir_def demo_input0_def estimate_defs initializer_defs dict_defs Let_def)

theorem C7_witness:
  "KalmanFilterBasic_init demo_dir Map.empty SimpleRandomInitializer
     = Inl (KeyError (KStr ''dt''))
   \<and> KalmanFilterBasic_init demo_dir [''dt'' \<mapsto> 1] SimpleRandomInitializer
     = Inl (KeyError (KStr ''pos_sigma''))
   \<and> KalmanFilterBasic_init demo_dir [''dt'' \<mapsto> 1, ''pos_sigma'' \<mapsto> 1] SimpleRandomInitializer
     = Inl (KeyError (KStr ''a_sigma''))
   \<and> isl (KalmanFilterBasic_init demo_dir no_v_mean_params SimpleRandomInitializer) = False
   \<and> Estimate (projr (KalmanFilterBasic_init demo_dir no_v_mean_params SimpleRandomInitializer)) 0
     = Inl (KeyError (KStr ''v_mean''))"
  using C7_missing_parameters [of Map.empty demo_dir SimpleRandomInitializer]
    C7_missing_parameters [of "[''dt'' \<mapsto> 1]" demo_dir SimpleRandomInitializer]
    C7_missing_parameters [of "[''dt'' \<mapsto> 1, ''pos_sigma'' \<mapsto> 1]" demo_dir
      SimpleRandomInitializer]
    C7_missing_parameters [of no_v_mean_params demo_dir SimpleRandomInitializer]
  by (simp add: no_v_mean_params_def demo_dir_def demo_input0_def)

section \<open>The error of a frame\<close>

text \<open>
  Claim C8. With an empty tracked set \<^verbatim>\<open>ComputeError\<close> divides by zero: it raises
  \<^verbatim>\<open>ZeroDivisionError\<close> and returns no filter, so neither error list gets a value for
  the frame.
\<close>

theorem C8_empty_tracked_set_divides_by_zero:
  "state flt = [] \<Longrightarrow> ComputeError flt = Inl ZeroDivisionError"
  by (simp add: ComputeError_def)

theorem C8_witness:
  "state empty_filter = [] \<and> ComputeError empty_filter = Inl ZeroDivisionError"
  using C8_empty_tracked_set_divides_by_zero [of empty_filter]
  by (simp add: empty_filter_def)

section \<open>Identities that disappear\<close>

text \<open>
  Claim C9. Let an identity be absent from the records of a frame. After the refresh of
  that frame, and after its \<^verbatim>\<open>Estimate\<close>, the identity is not a key of the tracked set.
  \<^verbatim>\<open>Estimate\<close> of the frame gives the same result, error or filter, as it gives when
  the identity is deleted from the tracked set beforehand, so the correction phase
  neither reads nor writes its object; and the run over this and any later frames, with
  the errors it records, is the same as the run from the tracked set without the
  identity. The tracked set is a dictionary: its keys are distinct, as they are in every
  filter reached from the constructor (\<open>distinct_keys_reached\<close>).
\<close>

theorem C9_dropped_identity:
  assumes "distinct (keys (state flt))" and "data_dir flt frame = Some input"
    and "\<not> contains k input"
  shows "(\<forall>flt1. UpdateTrackedObjects (predict_phase flt) frame = Inr flt1
            \<longrightarrow> \<not> contains k (state flt1))
       \<and> (\<forall>flt'. Estimate flt frame = Inr flt' \<longrightarrow> \<not> contains k (state flt'))
       \<and> Estimate (flt\<lparr>state := AList.delete k (state flt)\<rparr>) frame = Estimate flt frame
       \<and> run_frames log_freq (frame # fs) (flt\<lparr>state := AList.delete k (state flt)\<rparr>)
           = run_frames log_freq (frame # fs) flt"
proof -
  have "\<not> contains k (state flt1)"
    if "UpdateTrackedObjects (predict_phase flt) frame = Inr flt1" for flt1
    using UpdateTrackedObjects_keys [OF _ that, of input] assms(2,3)
    by (simp add: predict_phase_fields contains_def)
  moreover have "\<not> contains k (state flt')" if "Estimate flt frame = Inr flt'" for flt'
    using Estimate_keys [OF assms(2) that] assms(3) by (simp add: contains_def)
  ultimately show ?thesis
    using Estimate_delete [OF assms] run_frames_delete [OF assms] by blast
qed

theorem C9_witness:
  "distinct (keys (state demo1))
   \<and> data_dir demo1 1 = Some demo_input1
   \<and> contains 1 demo_input1 = False
   \<and> contains 1 (state demo1)
   \<and> UpdateTrackedObjects (predict_phase demo1) 1 = Inr demo1_pending
   \<and> contains 1 (state demo1_pending) = False
   \<and> Estimate demo1 1 = Inr demo2
   \<and> contains 1 (state demo2) = False
   \<and> Estimate (demo1\<lparr>state := AList.delete 1 (state demo1)\<rparr>) 1 = Inr demo2
   \<and> run_frames 1 [1, 2] (demo1\<lparr>state := AList.delete 1 (state demo1)\<rparr>)
       = run_frames 1 [1, 2] demo1"
proof -
  have d: "distinct (keys (state demo1))"
    using demo_built demo_frame0 by (rule distinct_keys_reached)
  have f: "data_dir demo1 1 = Some demo_input1"
    by (simp add: demo1_def demo0_def demo_dir_def)
  have n: "\<not> contains 1 demo_input1"
    by (simp add: demo_input1_def contains_def keys_def)
  have c: "contains 1 (state demo1)"
    by (simp add: demo1_def contains_def keys_def)
  note inst = C9_dropped_identity [OF d f n, of 1 "[2]"]
  from inst demo_refresh1 have "\<not> contains 1 (state demo1_pending)" by blast
  moreover from inst demo_estimate1 have "\<not> contains 1 (state demo2)" by blast
  moreover from inst demo_estimate1
  have "Estimate (demo1\<lparr>state := AList.delete 1 (state demo1)\<rparr>) 1 = Inr demo2" by simp
  moreover from inst have "run_frames 1 [1, 2] (demo1\<lparr>state := AList.delete 1 (state demo1)\<rparr>)
       = run_frames 1 [1, 2] demo1" by blast
  ultimately show ?thesis using d f n c demo_refresh1 demo_estimate1 by simp
qed

section \<open>The removal loop\<close>

text \<open>
  Claim C10. The loop that stops tracking runs over the list of keys taken before it
  starts, not over the dictionary it deletes from. On every tracked set (a dictionary,
  so with distinct keys) and every record set it returns without error, it returns what
  the removal in two phases returns (first collect the identities to remove, then delete
  them), and the result keeps exactly the entries whose identity is in the record set.
\<close>

theorem C10_removal_is_two_phase:
  "distinct (keys st) \<Longrightarrow>
     stop_tracking input (keys st) st = two_phase_removal input st
   \<and> stop_tracking input (keys st) st = Inr (filter (\<lambda>(k, s). contains k input) st)"
proof -
  assume "distinct (keys st)"
  then have "stop_tracking input (keys st) st = Inr (filter (\<lambda>(k, s). contains k input) st)"
    by (rule stop_tracking_keys)
  moreover have "stop_tracking input (keys st) st = two_phase_removal input st"
    unfolding two_phase_removal_def removals_def by (rule stop_tracking_apply_removals)
  ultimately show ?thesis by simp
qed

theorem C10_witness:
  "distinct (keys (state demo2))
   \<and> removals demo_input2 (state demo2) = [2, 3]
   \<and> two_phase_removal demo_input2 (state demo2) = Inr []
   \<and> stop_tracking demo_input2 (keys (state demo2)) (state demo2) = Inr []
   \<and> distinct (keys (state demo1))
   \<and> removals demo_input1 (state demo1) = [1]
   \<and> stop_tracking demo_input1 (keys (state demo1)) (state demo1) = Inr [(2, demo_object2)]"
proof -
  have d2: "distinct (keys (state demo2))" and d1: "distinct (keys (state demo1))"
    by (simp_all add: demo2_def demo1_def keys_def)
  have r2: "removals demo_input2 (state demo2) = [2, 3]"
    and r1: "removals demo_input1 (state demo1) = [1]"
    by (simp_all add: removals_def demo2_def demo1_def demo_input2_def demo_input1_def
        contains_def keys_def)
  have f2: "filter (\<lambda>(k, s). contains k demo_input2) (state demo2) = []"
    and f1: "filter (\<lambda>(k, s). contains k demo_input1) (state demo1) = [(2, demo_object2)]"
    by (simp_all add: demo2_def demo1_def demo_input2_def demo_input1_def contains_def keys_def)
  note i2 = C10_removal_is_two_phase [OF d2, of demo_input2, unfolded f2]
  note i1 = C10_removal_is_two_phase [OF d1, of demo_input1, unfolded f1]
  have "two_phase_removal demo_input2 (state demo2) = Inr []"
    using i2 by metis
  then show ?thesis
    using i2 [THEN conjunct2] i1 [THEN conjunct2] d1 d2 r1 r2 by blast
qed

end
